theory Spec2Isabelle
  imports Main "HOL-Library.Word"
begin

unbundle bit_operations_syntax

section \<open>JavaScript strings\<close>

text \<open>
  A JavaScript string is a sequence of UTF-16 code units. The model covers the code
  units below 256 (the Latin-1 range), one \<open>char\<close> per code unit, and gives the
  library functions the models use their ECMAScript meaning on that range.

  \<open>isWhiteSpace\<close> is the class \<^verbatim>\<open>\s\<close> of a regular expression, which is also the set
  of characters \<^verbatim>\<open>String.prototype.trim\<close> removes (WhiteSpace and LineTerminator):
  TAB, LF, VT, FF, CR, SPACE and NO-BREAK SPACE below 256.
\<close>

definition isWhiteSpace :: "char \<Rightarrow> bool" where
  "isWhiteSpace c =
     (c \<in> {CHR 0x09, CHR 0x0A, CHR 0x0B, CHR 0x0C, CHR 0x0D, CHR 0x20, CHR 0xA0})"

text \<open>
  The characters \<^verbatim>\<open>toLowerCase\<close> changes: A-Z, and the Latin-1 capitals U+00C0 to
  U+00DE without the multiplication sign U+00D7. Each is mapped 32 code units up.
\<close>

definition isUpper :: "char \<Rightarrow> bool" where
  "isUpper c = (let n = of_char c :: nat in
      (65 \<le> n \<and> n \<le> 90) \<or> (192 \<le> n \<and> n \<le> 222 \<and> n \<noteq> 215))"

definition toLowerCase_char :: "char \<Rightarrow> char" where
  "toLowerCase_char c = (if isUpper c then char_of (of_char c + (32::nat)) else c)"

definition toLowerCase :: "string \<Rightarrow> string" where
  "toLowerCase s = map toLowerCase_char s"

definition trim :: "string \<Rightarrow> string" where
  "trim s = rev (dropWhile isWhiteSpace (rev (dropWhile isWhiteSpace s)))"

text \<open>The classes \<^verbatim>\<open>\d\<close> = [0-9] and \<^verbatim>\<open>\w\<close> = [A-Za-z0-9_] (no unicode flag).\<close>

definition isDigit :: "char \<Rightarrow> bool" where
  "isDigit c = (let n = of_char c :: nat in 48 \<le> n \<and> n \<le> 57)"

definition isAsciiLetter :: "char \<Rightarrow> bool" where
  "isAsciiLetter c = (let n = of_char c :: nat in
      (65 \<le> n \<and> n \<le> 90) \<or> (97 \<le> n \<and> n \<le> 122))"

definition isWordChar :: "char \<Rightarrow> bool" where
  "isWordChar c = (isAsciiLetter c \<or> isDigit c \<or> c = CHR ''_'')"

text \<open>
  \<^verbatim>\<open>s.replace(/[class]/g, r)\<close>: every character of the class is replaced by \<open>r\<close>.
\<close>

definition replace_class :: "(char \<Rightarrow> bool) \<Rightarrow> string \<Rightarrow> string \<Rightarrow> string" where
  "replace_class p r s = concat (map (\<lambda>c. if p c then r else [c]) s)"

text \<open>
  \<^verbatim>\<open>s.replace(/[class]+/g, r)\<close>: the matcher scans from the left; at a character of the
  class the greedy \<^verbatim>\<open>+\<close> takes the whole run, which is replaced by one \<open>r\<close>, and the
  scan goes on after the run.
\<close>

function replace_runs :: "(char \<Rightarrow> bool) \<Rightarrow> string \<Rightarrow> string \<Rightarrow> string" where
  "replace_runs p r [] = []"
| "replace_runs p r (c # cs) =
     (if p c then r @ replace_runs p r (dropWhile p cs) else c # replace_runs p r cs)"
  by pat_completeness auto
termination
  by (relation "measure (\<lambda>(p, r, s). length s)")
     (auto simp: length_dropWhile_le less_Suc_eq_le)


section \<open>Event model: slug generation\<close>

text \<open>
  \<^verbatim>\<open>
  function generateSlug(title: string): string {
    return title
      .toLowerCase()
      .trim()
      .replace(/[^\w\s-]/g, '')   // Remove special characters
      .replace(/\s+/g, '-')       // Replace spaces with hyphens
      .replace(/-+/g, '-');       // Replace multiple hyphens with single hyphen
  }
  \<close>
\<close>

definition generateSlug :: "string \<Rightarrow> string" where
  "generateSlug title =
     replace_runs (\<lambda>c. c = CHR ''-'') ''-''
       (replace_runs isWhiteSpace ''-''
         (replace_class (\<lambda>c. \<not> (isWordChar c \<or> isWhiteSpace c \<or> c = CHR ''-'')) ''''
           (trim (toLowerCase title))))"

subsection \<open>The slug as the specification words it\<close>

text \<open>
  The specification's procedure, step by step: lowercase, trim, keep only letters,
  digits, underscores, hyphens and whitespace, turn each run of whitespace into one
  hyphen, turn each run of hyphens into one hyphen. "Letter" is read as the regular
  expression's \<^verbatim>\<open>\w\<close> has it: a letter of A-Z or a-z.

  \<open>collapse_runs p h\<close> replaces every maximal run of characters satisfying \<open>p\<close> by
  the single character \<open>h\<close>.
\<close>

fun collapse_runs :: "(char \<Rightarrow> bool) \<Rightarrow> char \<Rightarrow> string \<Rightarrow> string" where
  "collapse_runs p h [] = []"
| "collapse_runs p h [c] = (if p c then [h] else [c])"
| "collapse_runs p h (c # d # cs) =
     (if p c then (if p d then collapse_runs p h (d # cs) else h # collapse_runs p h (d # cs))
      else c # collapse_runs p h (d # cs))"

definition slug_spec :: "string \<Rightarrow> string" where
  "slug_spec title =
     collapse_runs (\<lambda>c. c = CHR ''-'') CHR ''-''
       (collapse_runs isWhiteSpace CHR ''-''
         (filter (\<lambda>c. isAsciiLetter c \<or> isDigit c \<or> c = CHR ''_'' \<or> c = CHR ''-''
                      \<or> isWhiteSpace c)
           (trim (toLowerCase title))))"

text \<open>The characters a slug is made of: a-z, 0-9, underscore and hyphen.\<close>

definition slug_char :: "char \<Rightarrow> bool" where
  "slug_char c = ((isWordChar c \<and> \<not> isUpper c) \<or> c = CHR ''-'')"



section \<open>Regular expressions\<close>

text \<open>
  The regular expressions of the models use character classes, sequence, alternation
  and \<^verbatim>\<open>+\<close> only, and are anchored at both ends (\<^verbatim>\<open>^...$\<close>, no flags), so
  \<^verbatim>\<open>regex.test(s)\<close> holds exactly when the whole string is in the expression's
  language. \<open>test\<close> decides that with derivatives; \<open>lang\<close> is the language.
\<close>

datatype regexp =
    Never
  | Eps
  | Cls "char \<Rightarrow> bool"
  | Seq regexp regexp
  | Alt regexp regexp
  | Star regexp
  | Plus regexp

fun nullable :: "regexp \<Rightarrow> bool" where
  "nullable Never = False"
| "nullable Eps = True"
| "nullable (Cls p) = False"
| "nullable (Seq r s) = (nullable r \<and> nullable s)"
| "nullable (Alt r s) = (nullable r \<or> nullable s)"
| "nullable (Star r) = True"
| "nullable (Plus r) = nullable r"

fun deriv :: "char \<Rightarrow> regexp \<Rightarrow> regexp" where
  "deriv c Never = Never"
| "deriv c Eps = Never"
| "deriv c (Cls p) = (if p c then Eps else Never)"
| "deriv c (Seq r s) =
     (if nullable r then Alt (Seq (deriv c r) s) (deriv c s) else Seq (deriv c r) s)"
| "deriv c (Alt r s) = Alt (deriv c r) (deriv c s)"
| "deriv c (Star r) = Seq (deriv c r) (Star r)"
| "deriv c (Plus r) = Seq (deriv c r) (Star r)"

fun test :: "regexp \<Rightarrow> string \<Rightarrow> bool" where
  "test r [] = nullable r"
| "test r (c # cs) = test (deriv c r) cs"

inductive_set star :: "string set \<Rightarrow> string set" for L :: "string set" where
  star_empty: "[] \<in> star L"
| star_step: "u \<in> L \<Longrightarrow> u \<noteq> [] \<Longrightarrow> v \<in> star L \<Longrightarrow> u @ v \<in> star L"

definition conc :: "string set \<Rightarrow> string set \<Rightarrow> string set" where
  "conc A B = {u @ v | u v. u \<in> A \<and> v \<in> B}"

fun lang :: "regexp \<Rightarrow> string set" where
  "lang Never = {}"
| "lang Eps = {[]}"
| "lang (Cls p) = {[c] | c. p c}"
| "lang (Seq r s) = conc (lang r) (lang s)"
| "lang (Alt r s) = lang r \<union> lang s"
| "lang (Star r) = star (lang r)"
| "lang (Plus r) = conc (lang r) (star (lang r))"

text \<open>A range \<^verbatim>\<open>[lo-hi]\<close> of a character class.\<close>

definition inRange :: "char \<Rightarrow> char \<Rightarrow> char \<Rightarrow> bool" where
  "inRange lo hi c = (of_char lo \<le> (of_char c :: nat) \<and> (of_char c :: nat) \<le> of_char hi)"


section \<open>Numbers as text\<close>

text \<open>
  \<^verbatim>\<open>Number.prototype.toString\<close> on a non-negative integer, and
  \<^verbatim>\<open>String.prototype.padStart(n, c)\<close> with a one-character filler.
\<close>

fun toString_nat :: "nat \<Rightarrow> string" where
  "toString_nat n =
     (if n < 10 then [char_of (48 + n)]
      else toString_nat (n div 10) @ [char_of (48 + n mod 10)])"

declare toString_nat.simps [simp del]

definition padStart :: "nat \<Rightarrow> char \<Rightarrow> string \<Rightarrow> string" where
  "padStart n c s = replicate (n - length s) c @ s"


section \<open>Dates\<close>

text \<open>
  A \<^verbatim>\<open>Date\<close> holds a time value: the milliseconds since 1970-01-01T00:00:00Z, or
  NaN (here \<open>None\<close>) for an invalid date. Two things about \<^verbatim>\<open>new Date(string)\<close> do
  not come from the repository and are parameters of the model, the \<open>host\<close>:

  \<^item> how the engine reads a string. Outside the ISO format, parsing is
    implementation-defined. A reading is \<open>Unreadable\<close> (the date is invalid),
    \<open>UtcTime t\<close> (the string names an instant: it carries a zone, or is an ISO
    date-only form) or \<open>LocalTime t\<close> (the string names a wall-clock time with no
    zone, \<open>t\<close> milliseconds after 1970-01-01T00:00 on the local clock);
  \<^item> the local time zone, as its offset from UTC in milliseconds (a zone with a
    fixed offset: no daylight saving).
\<close>

datatype reading = Unreadable | UtcTime int | LocalTime int

record host =
  dateParse :: "string \<Rightarrow> reading"
  localTZA :: int

definition timeClip :: "int \<Rightarrow> int option" where
  "timeClip t = (if \<bar>t\<bar> \<le> 8640000000000000 then Some t else None)"

definition newDate :: "host \<Rightarrow> string \<Rightarrow> int option" where
  "newDate h s =
     (case dateParse h s of
        Unreadable \<Rightarrow> None
      | UtcTime t \<Rightarrow> timeClip t
      | LocalTime t \<Rightarrow> timeClip (t - localTZA h))"

text \<open>
  The civil date (year, month, day) of a day number counted from 1970-01-01, in the
  proleptic Gregorian calendar: ECMAScript's YearFromTime, MonthFromTime and
  DateFromTime (month counted from 1 here).
\<close>

definition civil_from_days :: "int \<Rightarrow> int \<times> int \<times> int" where
  "civil_from_days days =
     (let z = days + 719468;
          era = z div 146097;
          doe = z mod 146097;
          yoe = (doe - doe div 1460 + doe div 36524 - doe div 146096) div 365;
          doy = doe - (365 * yoe + yoe div 4 - yoe div 100);
          mp = (5 * doy + 2) div 153;
          d = doy - (153 * mp + 2) div 5 + 1;
          m = (if mp < 10 then mp + 3 else mp - 9);
          y = yoe + era * 400
      in (if m \<le> 2 then y + 1 else y, m, d))"

text \<open>
  \<^verbatim>\<open>Date.prototype.toISOString\<close>: the UTC date and time of the time value. A year
  from 0 to 9999 is written with four digits, any other year with a sign and six.
\<close>

definition isoYear :: "int \<Rightarrow> string" where
  "isoYear y =
     (if 0 \<le> y \<and> y \<le> 9999 then padStart 4 CHR ''0'' (toString_nat (nat y))
      else (if y < 0 then ''-'' else ''+'') @ padStart 6 CHR ''0'' (toString_nat (nat \<bar>y\<bar>)))"

definition isoDate :: "int \<Rightarrow> string" where
  "isoDate days =
     (case civil_from_days days of
        (y, m, d) \<Rightarrow>
          isoYear y @ ''-'' @ padStart 2 CHR ''0'' (toString_nat (nat m))
            @ ''-'' @ padStart 2 CHR ''0'' (toString_nat (nat d)))"

definition toISOString :: "int \<Rightarrow> string" where
  "toISOString t =
     (let ms = t mod 86400000
      in isoDate (t div 86400000)
           @ ''T'' @ padStart 2 CHR ''0'' (toString_nat (nat (ms div 3600000)))
           @ '':'' @ padStart 2 CHR ''0'' (toString_nat (nat (ms div 60000 mod 60)))
           @ '':'' @ padStart 2 CHR ''0'' (toString_nat (nat (ms div 1000 mod 60)))
           @ ''.'' @ padStart 3 CHR ''0'' (toString_nat (nat (ms mod 1000))) @ ''Z'')"

text \<open>\<^verbatim>\<open>s.split(sep)[0]\<close>: the part of \<open>s\<close> before the first separator.\<close>

definition split_first :: "char \<Rightarrow> string \<Rightarrow> string" where
  "split_first sep s = takeWhile (\<lambda>c. c \<noteq> sep) s"

text \<open>\<^verbatim>\<open>getHours\<close> and \<^verbatim>\<open>getMinutes\<close> read the time value on the local clock.\<close>

definition getHours :: "host \<Rightarrow> int \<Rightarrow> nat" where
  "getHours h t = nat ((t + localTZA h) div 3600000 mod 24)"

definition getMinutes :: "host \<Rightarrow> int \<Rightarrow> nat" where
  "getMinutes h t = nat ((t + localTZA h) div 60000 mod 60)"


section \<open>Event model: date and time normalization\<close>

text \<open>\<^verbatim>\<open>new Error(message)\<close>, and the errors of the mapping layer and the store.\<close>

datatype error =
    Error string
  | ValidationError "(string \<times> string) list"
  | DuplicateKeyError string
  | DocumentNotFoundError

text \<open>
  \<^verbatim>\<open>
  function normalizeDate(dateString: string): string {
    const date = new Date(dateString);
    if (isNaN(date.getTime())) {
      throw new Error('Invalid date format. Please provide a valid date.');
    }
    return date.toISOString().split('T')[0]; // Returns YYYY-MM-DD
  }
  \<close>
\<close>

definition normalizeDate :: "host \<Rightarrow> string \<Rightarrow> error + string" where
  "normalizeDate h dateString =
     (case newDate h dateString of
        None \<Rightarrow> Inl (Error ''Invalid date format. Please provide a valid date.'')
      | Some t \<Rightarrow> Inr (split_first CHR ''T'' (toISOString t)))"

text \<open>
  \<^verbatim>\<open>
  function normalizeTime(timeString: string): string {
    const time24HourRegex = /^([01]\d|2[0-3]):([0-5]\d)$/;
    if (time24HourRegex.test(timeString.trim())) {
      return timeString.trim();
    }
    const dateTime = new Date(`1970-01-01 ${timeString}`);
    if (isNaN(dateTime.getTime())) {
      throw new Error('Invalid time format. Please use HH:MM format (24-hour).');
    }
    const hours = dateTime.getHours().toString().padStart(2, '0');
    const minutes = dateTime.getMinutes().toString().padStart(2, '0');
    return `${hours}:${minutes}`;
  }
  \<close>
\<close>

definition time24HourRegex :: regexp where
  "time24HourRegex =
     Seq (Alt (Seq (Cls (\<lambda>c. c = CHR ''0'' \<or> c = CHR ''1'')) (Cls isDigit))
              (Seq (Cls (\<lambda>c. c = CHR ''2'')) (Cls (inRange CHR ''0'' CHR ''3''))))
       (Seq (Cls (\<lambda>c. c = CHR '':''))
         (Seq (Cls (inRange CHR ''0'' CHR ''5'')) (Cls isDigit)))"

definition normalizeTime :: "host \<Rightarrow> string \<Rightarrow> error + string" where
  "normalizeTime h timeString =
     (if test time24HourRegex (trim timeString) then Inr (trim timeString)
      else
        (case newDate h (''1970-01-01 '' @ timeString) of
           None \<Rightarrow> Inl (Error ''Invalid time format. Please use HH:MM format (24-hour).'')
         | Some t \<Rightarrow>
             Inr (padStart 2 CHR ''0'' (toString_nat (getHours h t)) @ '':''
                  @ padStart 2 CHR ''0'' (toString_nat (getMinutes h t)))))"

section \<open>Documents\<close>

text \<open>
  An ObjectId is twelve bytes; its string form is 24 lowercase hexadecimal digits.
\<close>

type_synonym objectId = "96 word"

definition hex_digit :: "nat \<Rightarrow> char" where
  "hex_digit n = (if n < 10 then char_of (48 + n) else char_of (87 + n))"

definition objectId_toString :: "objectId \<Rightarrow> string" where
  "objectId_toString w =
     map (\<lambda>i. hex_digit (unat (drop_bit (4 * i) w AND 15))) (rev [0..<24])"

text \<open>
  The fields of \<^verbatim>\<open>IEvent\<close> and \<^verbatim>\<open>IBooking\<close>, typed as the interfaces type them. The
  timestamps \<^verbatim>\<open>createdAt\<close> and \<^verbatim>\<open>updatedAt\<close> are kept by the mapping layer from the
  clock and are left out. The field \<^verbatim>\<open>image\<close> is named \<open>image_path\<close> here.
\<close>

record event =
  title :: string
  slug :: string
  description :: string
  overview :: string
  image_path :: string
  venue :: string
  location :: string
  date :: string
  time :: string
  mode :: string
  audience :: string
  agenda :: "string list"
  organizer :: string
  tags :: "string list"

record booking =
  eventId :: objectId
  email :: string

text \<open>
  A document of the mapping layer: its \<^verbatim>\<open>_id\<close>, its fields, whether it has never
  been saved (\<^verbatim>\<open>isNew\<close>) and the paths changed since it was loaded
  (\<^verbatim>\<open>isModified(path)\<close>).
\<close>

record 'a document =
  oid :: objectId
  data :: 'a
  isNew :: bool
  modifiedPaths :: "string list"

definition isModified :: "'a document \<Rightarrow> string \<Rightarrow> bool" where
  "isModified d p = (p \<in> set (modifiedPaths d))"

text \<open>
  Assigning a path records it as modified when the document is new or the value
  changes.
\<close>

definition markModified :: "string \<Rightarrow> bool \<Rightarrow> 'a document \<Rightarrow> 'a document" where
  "markModified p changed d =
     (if isNew d \<or> changed then d\<lparr>modifiedPaths := List.insert p (modifiedPaths d)\<rparr> else d)"

text \<open>
  Assignments to the paths the save hook writes. The schema's setters run on every
  assignment: \<^verbatim>\<open>slug: { lowercase: true, trim: true }\<close>,
  \<^verbatim>\<open>date: { trim: true }\<close>, \<^verbatim>\<open>time: { trim: true }\<close>, \<^verbatim>\<open>venue: { trim: true }\<close>.
\<close>

definition assign_slug :: "string \<Rightarrow> event document \<Rightarrow> event document" where
  "assign_slug v d =
     (let v' = trim (toLowerCase v)
      in markModified ''slug'' (v' \<noteq> slug (data d)) (d\<lparr>data := (data d)\<lparr>slug := v'\<rparr>\<rparr>))"

definition assign_date :: "string \<Rightarrow> event document \<Rightarrow> event document" where
  "assign_date v d =
     (let v' = trim v
      in markModified ''date'' (v' \<noteq> date (data d)) (d\<lparr>data := (data d)\<lparr>date := v'\<rparr>\<rparr>))"

definition assign_time :: "string \<Rightarrow> event document \<Rightarrow> event document" where
  "assign_time v d =
     (let v' = trim v
      in markModified ''time'' (v' \<noteq> time (data d)) (d\<lparr>data := (data d)\<lparr>time := v'\<rparr>\<rparr>))"

definition assign_venue :: "string \<Rightarrow> event document \<Rightarrow> event document" where
  "assign_venue v d =
     (let v' = trim v
      in markModified ''venue'' (v' \<noteq> venue (data d)) (d\<lparr>data := (data d)\<lparr>venue := v'\<rparr>\<rparr>))"

text \<open>
  \<^verbatim>\<open>new Event({...})\<close> and \<^verbatim>\<open>new Booking({...})\<close>: a new document, every given value
  passed through its path's setters. Every string path of the Event schema has
  \<^verbatim>\<open>trim: true\<close>, \<^verbatim>\<open>slug\<close> has \<^verbatim>\<open>lowercase: true\<close> as well, and the Booking's
  \<^verbatim>\<open>email\<close> has \<^verbatim>\<open>trim: true, lowercase: true\<close>.
\<close>

definition Event_new :: "objectId \<Rightarrow> event \<Rightarrow> event document" where
  "Event_new i e =
     \<lparr>oid = i,
      data = \<lparr>title = trim (title e), slug = trim (toLowerCase (slug e)),
                description = trim (description e), overview = trim (overview e),
                image_path = trim (image_path e), venue = trim (venue e),
                location = trim (location e), date = trim (date e), time = trim (time e),
                mode = trim (mode e), audience = trim (audience e), agenda = agenda e,
                organizer = trim (organizer e), tags = tags e\<rparr>,
      isNew = True,
      modifiedPaths = [''title'', ''slug'', ''description'', ''overview'', ''image'', ''venue'',
                       ''location'', ''date'', ''time'', ''mode'', ''audience'', ''agenda'',
                       ''organizer'', ''tags'']\<rparr>"

definition Booking_new :: "objectId \<Rightarrow> objectId \<Rightarrow> string \<Rightarrow> booking document" where
  "Booking_new i eid mail =
     \<lparr>oid = i,
      data = \<lparr>eventId = eid, email = toLowerCase (trim mail)\<rparr>,
      isNew = True,
      modifiedPaths = [''eventId'', ''email'']\<rparr>"


section \<open>Schema validation\<close>

text \<open>
  The validators the schemas declare, run by the mapping layer before the save hooks.
  A failure is a pair of the path and the declared message; a path reports its first
  failing validator. \<^verbatim>\<open>required\<close> on a string path rejects the empty string. The
  path \<^verbatim>\<open>slug\<close> declares no validator.
\<close>

definition required :: "string \<Rightarrow> string \<Rightarrow> string \<Rightarrow> (string \<times> string) list" where
  "required path message v = (if v = [] then [(path, message)] else [])"

definition validate_event :: "event \<Rightarrow> (string \<times> string) list" where
  "validate_event e =
     required ''title'' ''Event title is required'' (title e)
     @ required ''description'' ''Event description is required'' (description e)
     @ required ''overview'' ''Event overview is required'' (overview e)
     @ required ''image'' ''Event image is required'' (image_path e)
     @ required ''venue'' ''Event venue is required'' (venue e)
     @ required ''location'' ''Event location is required'' (location e)
     @ required ''date'' ''Event date is required'' (date e)
     @ required ''time'' ''Event time is required'' (time e)
     @ (if mode e = [] then [(''mode'', ''Event mode is required'')]
        else if mode e \<in> set [''online'', ''offline'', ''hybrid''] then []
        else [(''mode'', ''Mode must be either online, offline, or hybrid'')])
     @ required ''audience'' ''Event audience is required'' (audience e)
     @ (if length (agenda e) > 0 then []
        else [(''agenda'', ''Agenda must contain at least one item'')])
     @ required ''organizer'' ''Event organizer is required'' (organizer e)
     @ (if length (tags e) > 0 then []
        else [(''tags'', ''Tags must contain at least one item'')])"

text \<open>
  \<^verbatim>\<open>
  validator: function (email: string): boolean {
    const emailRegex = /^[^\s@]+@[^\s@]+\.[^\s@]+$/;
    return emailRegex.test(email);
  },
  message: 'Please provide a valid email address',
  \<close>
\<close>

definition emailRegex :: regexp where
  "emailRegex =
     Seq (Plus (Cls (\<lambda>c. \<not> (isWhiteSpace c \<or> c = CHR ''@''))))
       (Seq (Cls (\<lambda>c. c = CHR ''@''))
         (Seq (Plus (Cls (\<lambda>c. \<not> (isWhiteSpace c \<or> c = CHR ''@''))))
           (Seq (Cls (\<lambda>c. c = CHR ''.''))
             (Plus (Cls (\<lambda>c. \<not> (isWhiteSpace c \<or> c = CHR ''@'')))))))"

definition validate_booking :: "booking \<Rightarrow> (string \<times> string) list" where
  "validate_booking b =
     (if email b = [] then [(''email'', ''Email is required'')]
      else if test emailRegex (email b) then []
      else [(''email'', ''Please provide a valid email address'')])"


section \<open>The store\<close>

text \<open>
  The two collections, each a list of documents by \<^verbatim>\<open>_id\<close>. The Event collection
  has the unique index the schema declares,
  \<^verbatim>\<open>eventSchema.index({ slug: 1 }, { unique: true })\<close>: a write that would leave two
  documents with one slug fails with a duplicate-key error, as does an insert under an
  \<^verbatim>\<open>_id\<close> already there. An update sets the modified paths only.
\<close>

record db =
  events :: "(objectId \<times> event) list"
  bookings :: "(objectId \<times> booking) list"

definition event_exists :: "db \<Rightarrow> objectId \<Rightarrow> bool" where
  "event_exists s i = (i \<in> set (map fst (events s)))"

definition put_event_path :: "event \<Rightarrow> string \<Rightarrow> event \<Rightarrow> event" where
  "put_event_path src p dst =
     (if p = ''title'' then dst\<lparr>title := title src\<rparr>
      else if p = ''slug'' then dst\<lparr>slug := slug src\<rparr>
      else if p = ''description'' then dst\<lparr>description := description src\<rparr>
      else if p = ''overview'' then dst\<lparr>overview := overview src\<rparr>
      else if p = ''image'' then dst\<lparr>image_path := image_path src\<rparr>
      else if p = ''venue'' then dst\<lparr>venue := venue src\<rparr>
      else if p = ''location'' then dst\<lparr>location := location src\<rparr>
      else if p = ''date'' then dst\<lparr>date := date src\<rparr>
      else if p = ''time'' then dst\<lparr>time := time src\<rparr>
      else if p = ''mode'' then dst\<lparr>mode := mode src\<rparr>
      else if p = ''audience'' then dst\<lparr>audience := audience src\<rparr>
      else if p = ''agenda'' then dst\<lparr>agenda := agenda src\<rparr>
      else if p = ''organizer'' then dst\<lparr>organizer := organizer src\<rparr>
      else if p = ''tags'' then dst\<lparr>tags := tags src\<rparr>
      else dst)"

definition put_booking_path :: "booking \<Rightarrow> string \<Rightarrow> booking \<Rightarrow> booking" where
  "put_booking_path src p dst =
     (if p = ''eventId'' then dst\<lparr>eventId := eventId src\<rparr>
      else if p = ''email'' then dst\<lparr>email := email src\<rparr>
      else dst)"

definition insert_event :: "db \<Rightarrow> objectId \<Rightarrow> event \<Rightarrow> error + db" where
  "insert_event s i e =
     (if i \<in> set (map fst (events s)) then Inl (DuplicateKeyError ''_id'')
      else if slug e \<in> set (map (\<lambda>(j, x). slug x) (events s))
        then Inl (DuplicateKeyError ''slug'')
      else Inr (s\<lparr>events := events s @ [(i, e)]\<rparr>))"

definition update_event :: "db \<Rightarrow> objectId \<Rightarrow> string list \<Rightarrow> event \<Rightarrow> error + db" where
  "update_event s i paths src =
     (case map_of (events s) i of
        None \<Rightarrow> Inl DocumentNotFoundError
      | Some stored \<Rightarrow>
          (let e = foldr (put_event_path src) paths stored
           in if slug e \<in> set (map (\<lambda>(j, x). slug x) (filter (\<lambda>(j, x). j \<noteq> i) (events s)))
                then Inl (DuplicateKeyError ''slug'')
              else Inr (s\<lparr>events := map (\<lambda>(j, x). if j = i then (j, e) else (j, x)) (events s)\<rparr>)))"

definition insert_booking :: "db \<Rightarrow> objectId \<Rightarrow> booking \<Rightarrow> error + db" where
  "insert_booking s i b =
     (if i \<in> set (map fst (bookings s)) then Inl (DuplicateKeyError ''_id'')
      else Inr (s\<lparr>bookings := bookings s @ [(i, b)]\<rparr>))"

definition update_booking :: "db \<Rightarrow> objectId \<Rightarrow> string list \<Rightarrow> booking \<Rightarrow> error + db" where
  "update_booking s i paths src =
     (case map_of (bookings s) i of
        None \<Rightarrow> Inl DocumentNotFoundError
      | Some stored \<Rightarrow>
          (let b = foldr (put_booking_path src) paths stored
           in Inr (s\<lparr>bookings := map (\<lambda>(j, x). if j = i then (j, b) else (j, x)) (bookings s)\<rparr>)))"


section \<open>Save hooks and saving\<close>

text \<open>
  \<^verbatim>\<open>
  eventSchema.pre('save', function (next) {
    try {
      if (this.isNew || this.isModified('title')) {
        this.slug = generateSlug(this.title);
      }
      if (this.isNew || this.isModified('date')) {
        this.date = normalizeDate(this.date);
      }
      if (this.isNew || this.isModified('time')) {
        this.time = normalizeTime(this.time);
      }
      next();
    } catch (error) {
      next(error as Error);
    }
  });
  \<close>
  The hook changes the document in memory as it goes, so the model returns the document
  as the hook leaves it together with what it passes to \<^verbatim>\<open>next\<close> (\<open>None\<close> for a
  plain \<^verbatim>\<open>next()\<close>).
\<close>

definition pre_save_event :: "host \<Rightarrow> event document \<Rightarrow> event document \<times> error option" where
  "pre_save_event h d =
     (let d1 = (if isNew d \<or> isModified d ''title''
                then assign_slug (generateSlug (title (data d))) d else d)
      in case (if isNew d1 \<or> isModified d1 ''date''
               then (case normalizeDate h (date (data d1)) of
                       Inl err \<Rightarrow> Inl err
                     | Inr v \<Rightarrow> Inr (assign_date v d1))
               else Inr d1) of
           Inl err \<Rightarrow> (d1, Some err)
         | Inr d2 \<Rightarrow>
             (case (if isNew d2 \<or> isModified d2 ''time''
                    then (case normalizeTime h (time (data d2)) of
                            Inl err \<Rightarrow> Inl err
                          | Inr v \<Rightarrow> Inr (assign_time v d2))
                    else Inr d2) of
                Inl err \<Rightarrow> (d2, Some err)
              | Inr d3 \<Rightarrow> (d3, None)))"

text \<open>
  \<^verbatim>\<open>
  bookingSchema.pre('save', async function (next) {
    try {
      if (this.isNew || this.isModified('eventId')) {
        const Event = mongoose.models.Event || (await import('./event.model')).default;
        const eventExists = await Event.exists({ _id: this.eventId });
        if (!eventExists) {
          throw new Error(
            `Event with ID ${this.eventId} does not exist. Cannot create booking for non-existent event.`
          );
        }
      }
      next();
    } catch (error) {
      next(error as Error);
    }
  });
  \<close>
  This hook reads the document and the store and writes neither.
\<close>

definition pre_save_booking :: "db \<Rightarrow> booking document \<Rightarrow> error option" where
  "pre_save_booking s d =
     (if isNew d \<or> isModified d ''eventId'' then
        (if \<not> event_exists s (eventId (data d)) then
           Some (Error (''Event with ID '' @ objectId_toString (eventId (data d))
                        @ '' does not exist. Cannot create booking for non-existent event.''))
         else None)
      else None)"

text \<open>
  \<^verbatim>\<open>doc.save()\<close>, as the mapping layer documents it: validation first, then the
  schema's \<^verbatim>\<open>pre('save')\<close> hook, then one write to the store (an insert for a new
  document, else an update of the modified paths). The first failure ends the save.
  The result is the outcome, the document in memory and the store afterwards.
\<close>

definition save_event ::
  "host \<Rightarrow> db \<Rightarrow> event document \<Rightarrow> (error + unit) \<times> event document \<times> db" where
  "save_event h s d =
     (case validate_event (data d) of
        v # vs \<Rightarrow> (Inl (ValidationError (v # vs)), d, s)
      | [] \<Rightarrow>
          (case pre_save_event h d of
             (d1, Some err) \<Rightarrow> (Inl err, d1, s)
           | (d1, None) \<Rightarrow>
               (case (if isNew d1 then insert_event s (oid d1) (data d1)
                      else update_event s (oid d1) (modifiedPaths d1) (data d1)) of
                  Inl err \<Rightarrow> (Inl err, d1, s)
                | Inr s' \<Rightarrow> (Inr (), d1\<lparr>isNew := False, modifiedPaths := []\<rparr>, s'))))"

definition save_booking ::
  "db \<Rightarrow> booking document \<Rightarrow> (error + unit) \<times> booking document \<times> db" where
  "save_booking s d =
     (case validate_booking (data d) of
        v # vs \<Rightarrow> (Inl (ValidationError (v # vs)), d, s)
      | [] \<Rightarrow>
          (case pre_save_booking s d of
             Some err \<Rightarrow> (Inl err, d, s)
           | None \<Rightarrow>
               (case (if isNew d then insert_booking s (oid d) (data d)
                      else update_booking s (oid d) (modifiedPaths d) (data d)) of
                  Inl err \<Rightarrow> (Inl err, d, s)
                | Inr s' \<Rightarrow> (Inr (), d\<lparr>isNew := False, modifiedPaths := []\<rparr>, s'))))"


text \<open>
  A host for the examples: the time zone UTC+3, and the readings Node's engine gives
  the strings below. Zoneless text is local time, an ISO date-only form is UTC, and
  "9:05am" is not read: the engine wants a space (or the end, Z or a sign) after the
  last field of a time, so the date is invalid.
\<close>

definition example_host :: host where
  "example_host =
     \<lparr>dateParse = (\<lambda>s.
        if s = ''March 5, 2025'' then LocalTime 1741132800000
        else if s = ''2025-03-05'' then UtcTime 1741132800000
        else if s = ''1970-01-01 9:05am'' then Unreadable
        else if s = ''1970-01-01 2:30 PM'' then LocalTime 52200000
        else Unreadable),
      localTZA = 10800000\<rparr>"

text \<open>An Event as a caller may give it, an id for it and the empty store.\<close>

definition example_event :: event where
  "example_event =
     \<lparr>title = ''Launch Day'', slug = [], description = ''A product launch'',
      overview = ''Talks and demos'', image_path = ''/images/launch.png'',
      venue = ''Hall 1'', location = ''Kampala'', date = ''2025-03-05'', time = ''09:00'',
      mode = ''hybrid'', audience = ''Developers'', agenda = [''Doors open''],
      organizer = ''Nuru'', tags = [''launch'']\<rparr>"

definition empty_db :: db where
  "empty_db = \<lparr>events = [], bookings = []\<rparr>"

text \<open>The store and the document in memory after the example Event was saved.\<close>

definition launch_db :: db where
  "launch_db = snd (snd (save_event example_host empty_db (Event_new 1 example_event)))"

definition launch_doc :: "event document" where
  "launch_doc = fst (snd (save_event example_host empty_db (Event_new 1 example_event)))"

section \<open>Properties of slug generation\<close>

lemma replace_class_empty: "replace_class (\<lambda>c. \<not> keep c) [] s = filter keep s"
  by (induction s) (simp_all add: replace_class_def)

lemma replace_runs_collapse: "replace_runs p [h] s = collapse_runs p h s"
  by (induction p h s rule: collapse_runs.induct) simp_all

lemma set_replace_runs: "set (replace_runs p r s) \<subseteq> {c \<in> set s. \<not> p c} \<union> set r"
proof (induction p r s rule: replace_runs.induct)
  case (1 p r)
  then show ?case by simp
next
  case (2 p r c cs)
  show ?case
  proof (cases "p c")
    case True
    have "set (dropWhile p cs) \<subseteq> set cs" by (auto dest: set_dropWhileD)
    with 2(1)[OF True] True show ?thesis by auto
  next
    case False
    with 2(2)[OF False] show ?thesis by auto
  qed
qed

lemma collapse_runs_head:
  "\<not> p c \<Longrightarrow> collapse_runs p h (c # cs) = c # collapse_runs p h cs"
  by (cases cs) simp_all

lemma collapse_runs_none: "list_all (\<lambda>c. \<not> p c) s \<Longrightarrow> collapse_runs p h s = s"
  by (induction s) (simp_all add: collapse_runs_head)

lemma collapse_runs_idem:
  "p h \<Longrightarrow> collapse_runs p h (collapse_runs p h s) = collapse_runs p h s"
  by (induction p h s rule: collapse_runs.induct) (simp_all add: collapse_runs_head)

lemma generateSlug_alt:
  "generateSlug t =
     collapse_runs (\<lambda>c. c = CHR ''-'') CHR ''-''
       (collapse_runs isWhiteSpace CHR ''-''
         (filter (\<lambda>c. isWordChar c \<or> isWhiteSpace c \<or> c = CHR ''-'')
           (trim (toLowerCase t))))"
  unfolding generateSlug_def replace_class_empty replace_runs_collapse ..

lemma not_isUpper_toLowerCase_char: "\<not> isUpper (toLowerCase_char c)"
  by (simp add: toLowerCase_char_def isUpper_def Let_def)

lemma slug_char_not_space: "slug_char c \<Longrightarrow> \<not> isWhiteSpace c"
  by (auto simp add: slug_char_def isWordChar_def isAsciiLetter_def isDigit_def
        isWhiteSpace_def isUpper_def Let_def)

lemma slug_char_not_upper: "slug_char c \<Longrightarrow> \<not> isUpper c"
  by (auto simp add: slug_char_def isUpper_def)

lemma set_trim: "set (trim s) \<subseteq> set s"
  by (auto simp: trim_def dest!: set_dropWhileD)

lemma trim_no_space: "list_all (\<lambda>c. \<not> isWhiteSpace c) s \<Longrightarrow> trim s = s"
proof -
  assume a: "list_all (\<lambda>c. \<not> isWhiteSpace c) s"
  then have "dropWhile isWhiteSpace s = s"
    by (cases s) simp_all
  moreover from a have "dropWhile isWhiteSpace (rev s) = rev s"
    by (cases "rev s" rule: list.exhaust) (auto simp: list_all_iff dest: arg_cong[where f = set])
  ultimately show ?thesis by (simp add: trim_def)
qed

lemma toLowerCase_no_upper: "list_all (\<lambda>c. \<not> isUpper c) s \<Longrightarrow> toLowerCase s = s"
  by (induction s) (simp_all add: toLowerCase_def toLowerCase_char_def)

lemma slug_chars_generateSlug: "list_all slug_char (generateSlug t)"
proof -
  let ?keep = "\<lambda>c. isWordChar c \<or> isWhiteSpace c \<or> c = CHR ''-''"
  let ?a = "trim (toLowerCase t)"
  let ?b = "filter ?keep ?a"
  let ?c = "replace_runs isWhiteSpace ''-'' ?b"
  have a: "\<not> isUpper x" if "x \<in> set ?a" for x
    using that set_trim[of "toLowerCase t"]
    by (auto simp: toLowerCase_def not_isUpper_toLowerCase_char)
  have c: "slug_char x" if "x \<in> set ?c" for x
  proof -
    from that set_replace_runs[of isWhiteSpace "''-''" ?b]
    have "(x \<in> set ?b \<and> \<not> isWhiteSpace x) \<or> x = CHR ''-''" by auto
    then show ?thesis using a by (auto simp: slug_char_def)
  qed
  have "slug_char x" if "x \<in> set (replace_runs (\<lambda>c. c = CHR ''-'') ''-'' ?c)" for x
    using that set_replace_runs[of "\<lambda>c. c = CHR ''-''" "''-''" ?c] c
    by (auto simp: slug_char_def)
  then show ?thesis
    unfolding generateSlug_def replace_class_empty by (simp add: list_all_iff)
qed

lemma generateSlug_on_slug_chars:
  assumes "list_all slug_char s"
  shows "generateSlug s = collapse_runs (\<lambda>c. c = CHR ''-'') CHR ''-'' s"
proof -
  from assms have up: "list_all (\<lambda>c. \<not> isUpper c) s"
    and sp: "list_all (\<lambda>c. \<not> isWhiteSpace c) s"
    and kp: "filter (\<lambda>c. isWordChar c \<or> isWhiteSpace c \<or> c = CHR ''-'') s = s"
    by (auto simp: list_all_iff slug_char_not_upper slug_char_not_space slug_char_def
          intro!: filter_True)
  show ?thesis
    by (simp add: generateSlug_alt toLowerCase_no_upper[OF up] trim_no_space[OF sp]
          kp collapse_runs_none[OF sp])
qed

text \<open>
  C1. For every title the slug generateSlug returns is the one the specification's
  procedure gives: lowercase, trim, strip every character that is not a letter, digit,
  underscore, hyphen or whitespace, collapse each run of whitespace into one hyphen,
  collapse each run of hyphens into one, in this order; and the title
  "My Cool Event!!" has the slug "my-cool-event".
\<close>

theorem generateSlug_follows_spec:
  "generateSlug t = slug_spec t
   \<and> generateSlug ''My Cool Event!!'' = ''my-cool-event''"
proof
  have "(\<lambda>c. isWordChar c \<or> isWhiteSpace c \<or> c = CHR ''-'') =
        (\<lambda>c. isAsciiLetter c \<or> isDigit c \<or> c = CHR ''_'' \<or> c = CHR ''-'' \<or> isWhiteSpace c)"
    by (auto simp: isWordChar_def)
  then show "generateSlug t = slug_spec t"
    by (simp add: generateSlug_alt slug_spec_def)
  show "generateSlug ''My Cool Event!!'' = ''my-cool-event''"
    by code_simp
qed

text \<open>
  C5. Slug generation is idempotent: generating the slug of a slug gives the same slug.
\<close>

theorem generateSlug_idempotent:
  "generateSlug (generateSlug t) = generateSlug t"
proof -
  have "generateSlug (generateSlug t) =
        collapse_runs (\<lambda>c. c = CHR ''-'') CHR ''-'' (generateSlug t)"
    by (rule generateSlug_on_slug_chars[OF slug_chars_generateSlug])
  also have "\<dots> = generateSlug t"
    by (simp add: generateSlug_alt collapse_runs_idem)
  finally show ?thesis .
qed


section \<open>Properties of the regular expressions\<close>

lemma star_any: "u \<in> L \<Longrightarrow> v \<in> star L \<Longrightarrow> u @ v \<in> star L"
  by (cases "u = []") (auto intro: star_step)

lemma nullable_lang: "nullable r \<longleftrightarrow> [] \<in> lang r"
  by (induction r) (auto simp: conc_def intro: star_empty)

lemma conc_Cons:
  "c # w \<in> conc A B \<longleftrightarrow> (\<exists>u v. w = u @ v \<and> c # u \<in> A \<and> v \<in> B) \<or> ([] \<in> A \<and> c # w \<in> B)"
  by (auto simp: conc_def Cons_eq_append_conv)

lemma star_Cons:
  "c # w \<in> star L \<longleftrightarrow> (\<exists>u v. w = u @ v \<and> c # u \<in> L \<and> v \<in> star L)"
proof
  assume "c # w \<in> star L"
  then show "\<exists>u v. w = u @ v \<and> c # u \<in> L \<and> v \<in> star L"
    by (cases rule: star.cases) (auto simp: Cons_eq_append_conv)
next
  assume "\<exists>u v. w = u @ v \<and> c # u \<in> L \<and> v \<in> star L"
  then obtain u v where "w = u @ v" "c # u \<in> L" "v \<in> star L" by blast
  then show "c # w \<in> star L" using star_step[of "c # u" L v] by simp
qed

lemma deriv_lang: "w \<in> lang (deriv c r) \<longleftrightarrow> c # w \<in> lang r"
proof (induction r arbitrary: w)
  case (Seq r s)
  then show ?case by (auto simp: conc_Cons nullable_lang) (auto simp: conc_def)
next
  case (Star r)
  then show ?case by (auto simp: star_Cons conc_def)
next
  case (Plus r)
  then show ?case by (auto simp: conc_Cons star_Cons) (auto simp: conc_def)
qed (auto simp: conc_def)

lemma test_lang: "test r w \<longleftrightarrow> w \<in> lang r"
  by (induction w arbitrary: r) (simp_all add: nullable_lang deriv_lang)

lemma star_Cls: "star {[c] | c. p c} = {w. list_all p w}"
proof (intro set_eqI iffI)
  fix w assume "w \<in> star {[c] | c. p c}"
  then show "w \<in> {w. list_all p w}" by induction auto
next
  fix w assume "w \<in> {w. list_all p w}"
  then have "list_all p w" by simp
  then show "w \<in> star {[c] | c. p c}"
  proof (induction w)
    case Nil show ?case by (rule star_empty)
  next
    case (Cons a w)
    then have "[a] @ w \<in> star {[c] | c. p c}" by (intro star_step) auto
    then show ?case by simp
  qed
qed

lemma ex_single_append:
  "(\<exists>u v. s = u @ v \<and> (\<exists>c. u = [c] \<and> p c) \<and> Q v) \<longleftrightarrow> (\<exists>c v. s = c # v \<and> p c \<and> Q v)"
proof
  assume "\<exists>u v. s = u @ v \<and> (\<exists>c. u = [c] \<and> p c) \<and> Q v"
  then show "\<exists>c v. s = c # v \<and> p c \<and> Q v" by auto
next
  assume "\<exists>c v. s = c # v \<and> p c \<and> Q v"
  then obtain c v where "s = [c] @ v" "p c" "Q v" by auto
  then show "\<exists>u v. s = u @ v \<and> (\<exists>c. u = [c] \<and> p c) \<and> Q v" by blast
qed

lemma test_Cls: "test (Cls p) s \<longleftrightarrow> (\<exists>c. s = [c] \<and> p c)"
  by (auto simp: test_lang)

lemma test_Alt: "test (Alt r1 r2) s \<longleftrightarrow> test r1 s \<or> test r2 s"
  by (simp add: test_lang)

lemma test_Seq: "test (Seq r1 r2) s \<longleftrightarrow> (\<exists>u v. s = u @ v \<and> test r1 u \<and> test r2 v)"
  by (auto simp: test_lang conc_def)

lemma test_Seq_Cls: "test (Seq (Cls p) r) s \<longleftrightarrow> (\<exists>c v. s = c # v \<and> p c \<and> test r v)"
  by (simp add: test_Seq test_Cls ex_single_append)

lemma test_Seq_Alt: "test (Seq (Alt r1 r2) r) s \<longleftrightarrow> test (Seq r1 r) s \<or> test (Seq r2 r) s"
  by (auto simp: test_Seq test_Alt)

lemma test_Seq_Seq: "test (Seq (Seq r1 r2) r) s \<longleftrightarrow> test (Seq r1 (Seq r2 r)) s"
proof -
  have "conc (conc A B) C = conc A (conc B C)" for A B C :: "string set"
    by (auto simp: conc_def) (metis append.assoc)+
  then show ?thesis by (simp add: test_lang)
qed

lemma test_Plus_Cls: "test (Plus (Cls p)) s \<longleftrightarrow> s \<noteq> [] \<and> list_all p s"
proof -
  have "s \<in> conc {[c] | c. p c} {w. list_all p w} \<longleftrightarrow> (\<exists>c v. s = c # v \<and> p c \<and> list_all p v)"
    using ex_single_append[of s p "list_all p"] by (auto simp: conc_def)
  also have "\<dots> \<longleftrightarrow> s \<noteq> [] \<and> list_all p s"
    by (cases s) auto
  finally have "s \<in> conc {[c] | c. p c} {w. list_all p w} \<longleftrightarrow> s \<noteq> [] \<and> list_all p s" .
  then show ?thesis by (simp add: test_lang star_Cls)
qed

lemma test_Seq_Plus_Cls:
  "test (Seq (Plus (Cls p)) r) s \<longleftrightarrow>
     (\<exists>u v. s = u @ v \<and> u \<noteq> [] \<and> list_all p u \<and> test r v)"
  by (simp add: test_Seq test_Plus_Cls)

lemma time24_shape:
  "test time24HourRegex s \<longleftrightarrow>
     (\<exists>a b c d. s = [a, b, CHR '':'', c, d]
        \<and> (((a = CHR ''0'' \<or> a = CHR ''1'') \<and> isDigit b) \<or> (a = CHR ''2'' \<and> inRange CHR ''0'' CHR ''3'' b))
        \<and> inRange CHR ''0'' CHR ''5'' c \<and> isDigit d)"
  unfolding time24HourRegex_def test_Seq_Alt test_Seq_Seq test_Seq_Cls test_Cls
  apply (rule iffI)
   apply (elim disjE exE conjE; simp)
  apply (elim disjE exE conjE; simp)
  done

lemma email_shape:
  "test emailRegex s \<longleftrightarrow>
     (\<exists>l a b. s = l @ ''@'' @ a @ ''.'' @ b \<and> l \<noteq> [] \<and> a \<noteq> [] \<and> b \<noteq> []
        \<and> list_all (\<lambda>c. \<not> (isWhiteSpace c \<or> c = CHR ''@'')) (l @ a @ b))"
  (is "_ \<longleftrightarrow> ?R")
proof -
  let ?p = "\<lambda>c. \<not> (isWhiteSpace c \<or> c = CHR ''@'')"
  let ?M = "\<exists>u v. s = u @ v \<and> u \<noteq> [] \<and> list_all ?p u \<and>
     (\<exists>c w. v = c # w \<and> c = CHR ''@'' \<and>
       (\<exists>a x. w = a @ x \<and> a \<noteq> [] \<and> list_all ?p a \<and>
         (\<exists>d b. x = d # b \<and> d = CHR ''.'' \<and> b \<noteq> [] \<and> list_all ?p b)))"
  have "test emailRegex s \<longleftrightarrow> ?M"
    unfolding emailRegex_def test_Seq_Plus_Cls test_Seq_Cls test_Plus_Cls ..
  also have "?M \<longleftrightarrow> ?R"
  proof
    assume ?M
    then obtain u a b where "s = u @ CHR ''@'' # a @ CHR ''.'' # b" "u \<noteq> []" "a \<noteq> []" "b \<noteq> []"
      "list_all ?p u" "list_all ?p a" "list_all ?p b" by blast
    then show ?R by (intro exI[of _ u] exI[of _ a] exI[of _ b]) simp
  next
    assume ?R
    then obtain l a b where *: "s = l @ CHR ''@'' # a @ CHR ''.'' # b" "l \<noteq> []" "a \<noteq> []" "b \<noteq> []"
      "list_all ?p l" "list_all ?p a" "list_all ?p b" by auto
    show ?M
      apply (rule exI[of _ l], rule exI[of _ "CHR ''@'' # a @ CHR ''.'' # b"])
      apply (simp only: * simp_thms)
      apply (rule exI[of _ "CHR ''@''"], rule exI[of _ "a @ CHR ''.'' # b"])
      apply (simp only: simp_thms)
      apply (rule exI[of _ a], rule exI[of _ "CHR ''.'' # b"])
      apply (simp only: * simp_thms)
      apply (rule exI[of _ "CHR ''.''"], rule exI[of _ b])
      apply (simp only: * simp_thms)
      done
  qed
  finally show ?thesis .
qed



section \<open>Properties of date and time normalization\<close>

lemma char_of_48: "char_of (48::nat) = CHR ''0''" by code_simp
lemma char_of_49: "char_of (49::nat) = CHR ''1''" by code_simp
lemma char_of_50: "char_of (50::nat) = CHR ''2''" by code_simp

lemma isDigit_char_of: "k < 10 \<Longrightarrow> isDigit (char_of (48 + k :: nat))"
  by (simp add: isDigit_def Let_def)

lemma inRange_0_5: "k \<le> 5 \<Longrightarrow> inRange CHR ''0'' CHR ''5'' (char_of (48 + k :: nat))"
  by (simp add: inRange_def)

lemma inRange_0_3: "k \<le> 3 \<Longrightarrow> inRange CHR ''0'' CHR ''3'' (char_of (48 + k :: nat))"
  by (simp add: inRange_def)

lemma two_digits:
  "n < 100 \<Longrightarrow> padStart 2 CHR ''0'' (toString_nat n) = [char_of (48 + n div 10), char_of (48 + n mod 10)]"
proof (cases "n < 10")
  case True
  then show ?thesis by (simp add: toString_nat.simps[of n] padStart_def char_of_48)
next
  case False
  assume "n < 100"
  with False have "n div 10 < 10" by simp
  with False show ?thesis
    by (simp add: toString_nat.simps[of n] toString_nat.simps[of "n div 10"] padStart_def)
qed

lemma time24_of_clock:
  assumes "hh < 24" "mm < 60"
  shows "test time24HourRegex
           (padStart 2 CHR ''0'' (toString_nat hh) @ '':'' @ padStart 2 CHR ''0'' (toString_nat mm))"
proof -
  have hd: "hh mod 10 < 10" and md: "mm mod 10 < 10" by simp_all
  from assms have m5: "mm div 10 \<le> 5" by simp
  from assms have "hh div 10 = 0 \<or> hh div 10 = 1 \<or> (hh div 10 = 2 \<and> hh mod 10 \<le> 3)"
    by presburger
  then have "test time24HourRegex
      [char_of (48 + hh div 10), char_of (48 + hh mod 10), CHR '':'',
       char_of (48 + mm div 10), char_of (48 + mm mod 10)]"
    unfolding time24_shape
  proof (elim disjE)
    assume "hh div 10 = 0"
    then show "\<exists>a b c d. [char_of (48 + hh div 10), char_of (48 + hh mod 10), CHR '':'',
        char_of (48 + mm div 10), char_of (48 + mm mod 10)] = [a, b, CHR '':'', c, d]
        \<and> (((a = CHR ''0'' \<or> a = CHR ''1'') \<and> isDigit b) \<or> (a = CHR ''2'' \<and> inRange CHR ''0'' CHR ''3'' b))
        \<and> inRange CHR ''0'' CHR ''5'' c \<and> isDigit d"
      using m5 by (simp add: isDigit_char_of char_of_48 inRange_0_5 inRange_0_3)
  next
    assume "hh div 10 = 1"
    then show "\<exists>a b c d. [char_of (48 + hh div 10), char_of (48 + hh mod 10), CHR '':'',
        char_of (48 + mm div 10), char_of (48 + mm mod 10)] = [a, b, CHR '':'', c, d]
        \<and> (((a = CHR ''0'' \<or> a = CHR ''1'') \<and> isDigit b) \<or> (a = CHR ''2'' \<and> inRange CHR ''0'' CHR ''3'' b))
        \<and> inRange CHR ''0'' CHR ''5'' c \<and> isDigit d"
      using m5 by (simp add: isDigit_char_of char_of_49 inRange_0_5 inRange_0_3)
  next
    assume "hh div 10 = 2 \<and> hh mod 10 \<le> 3"
    then show "\<exists>a b c d. [char_of (48 + hh div 10), char_of (48 + hh mod 10), CHR '':'',
        char_of (48 + mm div 10), char_of (48 + mm mod 10)] = [a, b, CHR '':'', c, d]
        \<and> (((a = CHR ''0'' \<or> a = CHR ''1'') \<and> isDigit b) \<or> (a = CHR ''2'' \<and> inRange CHR ''0'' CHR ''3'' b))
        \<and> inRange CHR ''0'' CHR ''5'' c \<and> isDigit d"
      using m5 by (simp add: isDigit_char_of char_of_50 inRange_0_5 inRange_0_3)
  qed
  with assms show ?thesis by (simp add: two_digits)
qed

lemma time24_no_space: "test time24HourRegex s \<Longrightarrow> list_all (\<lambda>c. \<not> isWhiteSpace c) s"
  by (auto simp: time24_shape isDigit_def inRange_def isWhiteSpace_def)

lemma getHours_lt: "getHours h t < 24"
  by (simp add: getHours_def nat_less_iff)
lemma getMinutes_lt: "getMinutes h t < 60"
  by (simp add: getMinutes_def nat_less_iff)

lemma trim_time24: "test time24HourRegex s \<Longrightarrow> trim s = s"
  by (rule trim_no_space[OF time24_no_space])

lemma no_T_toString_nat: "CHR ''T'' \<notin> set (toString_nat n)"
proof (induction n rule: toString_nat.induct)
  case (1 n)
  have "CHR ''T'' \<noteq> char_of (48 + k)" if "k < 10" for k :: nat
  proof
    assume "CHR ''T'' = char_of (48 + k)"
    then have "(of_char CHR ''T'' :: nat) = of_char (char_of (48 + k) :: char)" by simp
    with that show False by simp
  qed
  note nT = this
  show ?case
  proof (cases "n < 10")
    case True
    then show ?thesis using nT[of n] by (simp add: toString_nat.simps[of n])
  next
    case False
    then show ?thesis using 1 nT[of "n mod 10"] by (simp add: toString_nat.simps[of n])
  qed
qed

lemma no_T_padStart: "CHR ''T'' \<notin> set (padStart k CHR ''0'' (toString_nat n))"
  by (auto simp: padStart_def no_T_toString_nat)

lemma no_T_isoDate: "CHR ''T'' \<notin> set (isoDate days)"
  by (auto simp: isoDate_def isoYear_def no_T_padStart split: prod.splits)

lemma split_toISOString: "split_first CHR ''T'' (toISOString t) = isoDate (t div 86400000)"
proof -
  have "takeWhile (\<lambda>c. c \<noteq> CHR ''T'') (xs @ CHR ''T'' # ys) = xs" if "CHR ''T'' \<notin> set xs" for xs ys
    using that by (induction xs) auto
  from this[OF no_T_isoDate] show ?thesis
    by (simp add: split_first_def toISOString_def Let_def)
qed

lemma normalizeDate_local_midnight:
  assumes "dateParse h s = LocalTime (day * 86400000)"
    and "\<bar>day * 86400000 - localTZA h\<bar> \<le> 8640000000000000"
  shows "0 < localTZA h \<Longrightarrow> localTZA h \<le> 86400000 \<Longrightarrow> normalizeDate h s = Inr (isoDate (day - 1))"
    and "- 86400000 < localTZA h \<Longrightarrow> localTZA h \<le> 0 \<Longrightarrow> normalizeDate h s = Inr (isoDate day)"
proof -
  assume "0 < localTZA h" "localTZA h \<le> 86400000"
  then have "(day * 86400000 - localTZA h) div 86400000 = day - 1" by linarith
  with assms show "normalizeDate h s = Inr (isoDate (day - 1))"
    by (simp add: normalizeDate_def newDate_def timeClip_def split_toISOString)
next
  assume "- 86400000 < localTZA h" "localTZA h \<le> 0"
  then have "(day * 86400000 - localTZA h) div 86400000 = day" by linarith
  with assms show "normalizeDate h s = Inr (isoDate day)"
    by (simp add: normalizeDate_def newDate_def timeClip_def split_toISOString)
qed

text \<open>
  C3. On a host three hours east of UTC whose engine reads "March 5, 2025" as midnight
  of 5 March 2025 on the local clock, normalizeDate returns "2025-03-04": the date is
  taken from the UTC form of the instant, which is 21:00 of the day before. The
  specification's scenario expects "2025-03-05".
\<close>

theorem normalizeDate_march_5_east_of_utc:
  "dateParse example_host ''March 5, 2025'' = LocalTime (20152 * 86400000)
   \<and> isoDate 20152 = ''2025-03-05''
   \<and> localTZA example_host = 3 * 3600000
   \<and> normalizeDate example_host ''March 5, 2025'' = Inr ''2025-03-04''"
  by code_simp



section \<open>Properties of the save hooks\<close>


lemma isWhiteSpace_code: "isWhiteSpace c \<longleftrightarrow> of_char c \<in> {9, 10, 11, 12, 13, 32, 160 :: nat}"
proof -
  have "c = d \<longleftrightarrow> (of_char c :: nat) = of_char d" for d :: char by auto
  note e = this
  show ?thesis
    by (simp add: isWhiteSpace_def e[of "CHR 0x09"] e[of "CHR 0x0A"] e[of "CHR 0x0B"]
          e[of "CHR 0x0C"] e[of "CHR 0x0D"] e[of "CHR 0x20"] e[of "CHR 0xA0"])
qed

lemma isWhiteSpace_toLowerCase_char: "isWhiteSpace (toLowerCase_char c) = isWhiteSpace c"
  by (auto simp: isWhiteSpace_code toLowerCase_char_def isUpper_def Let_def)

lemma dropWhile_space_toLowerCase:
  "dropWhile isWhiteSpace (toLowerCase s) = toLowerCase (dropWhile isWhiteSpace s)"
  by (induction s) (simp_all add: toLowerCase_def isWhiteSpace_toLowerCase_char)

lemma trim_toLowerCase: "trim (toLowerCase s) = toLowerCase (trim s)"
proof -
  have r: "rev (toLowerCase x) = toLowerCase (rev x)" for x
    by (simp add: toLowerCase_def rev_map)
  show ?thesis
    unfolding trim_def dropWhile_space_toLowerCase r ..
qed

lemma setters_generateSlug: "trim (toLowerCase (generateSlug t)) = generateSlug t"
proof -
  have s: "list_all slug_char (generateSlug t)" by (rule slug_chars_generateSlug)
  then have "list_all (\<lambda>c. \<not> isUpper c) (generateSlug t)"
    and "list_all (\<lambda>c. \<not> isWhiteSpace c) (generateSlug t)"
    by (auto simp: list_all_iff slug_char_not_upper slug_char_not_space)
  then show ?thesis by (simp add: toLowerCase_no_upper trim_no_space)
qed

lemma assign_slug_simps:
  "data (assign_slug v d) = (data d)\<lparr>slug := trim (toLowerCase v)\<rparr>"
  "isNew (assign_slug v d) = isNew d"
  "oid (assign_slug v d) = oid d"
  "p \<noteq> ''slug'' \<Longrightarrow> isModified (assign_slug v d) p = isModified d p"
  by (simp_all add: assign_slug_def Let_def markModified_def isModified_def)

lemma assign_date_simps:
  "data (assign_date v d) = (data d)\<lparr>date := trim v\<rparr>"
  "isNew (assign_date v d) = isNew d"
  "oid (assign_date v d) = oid d"
  "p \<noteq> ''date'' \<Longrightarrow> isModified (assign_date v d) p = isModified d p"
  by (simp_all add: assign_date_def Let_def markModified_def isModified_def)

lemma assign_time_simps:
  "data (assign_time v d) = (data d)\<lparr>time := trim v\<rparr>"
  "isNew (assign_time v d) = isNew d"
  "oid (assign_time v d) = oid d"
  "p \<noteq> ''time'' \<Longrightarrow> isModified (assign_time v d) p = isModified d p"
  by (simp_all add: assign_time_def Let_def markModified_def isModified_def)

lemmas assign_simps = assign_slug_simps assign_date_simps assign_time_simps

lemma pre_save_event_cases [case_names date_error time_error ok]:
  fixes h d
  defines "d1 \<equiv> (if isNew d \<or> isModified d ''title''
                  then assign_slug (generateSlug (title (data d))) d else d)"
  obtains
    (date_error) err where
      "isNew d \<or> isModified d ''date''"
      "normalizeDate h (date (data d1)) = Inl err"
      "pre_save_event h d = (d1, Some err)"
  | (time_error) d2 err where
      "(d2 = d1 \<and> \<not> (isNew d \<or> isModified d ''date''))
       \<or> ((isNew d \<or> isModified d ''date'')
           \<and> (\<exists>v. normalizeDate h (date (data d1)) = Inr v \<and> d2 = assign_date v d1))"
      "isNew d \<or> isModified d ''time''"
      "normalizeTime h (time (data d2)) = Inl err"
      "pre_save_event h d = (d2, Some err)"
  | (ok) d2 d3 where
      "(d2 = d1 \<and> \<not> (isNew d \<or> isModified d ''date''))
       \<or> ((isNew d \<or> isModified d ''date'')
           \<and> (\<exists>v. normalizeDate h (date (data d1)) = Inr v \<and> d2 = assign_date v d1))"
      "(d3 = d2 \<and> \<not> (isNew d \<or> isModified d ''time''))
       \<or> ((isNew d \<or> isModified d ''time'')
           \<and> (\<exists>v. normalizeTime h (time (data d2)) = Inr v \<and> d3 = assign_time v d2))"
      "pre_save_event h d = (d3, None)"
proof -
  have n1: "isNew d1 = isNew d" "isModified d1 ''date'' = isModified d ''date''"
    "isModified d1 ''time'' = isModified d ''time''"
    by (simp_all add: d1_def assign_slug_simps)
  define r2 where "r2 = (if isNew d1 \<or> isModified d1 ''date''
               then (case normalizeDate h (date (data d1)) of
                       Inl err \<Rightarrow> Inl err
                     | Inr v \<Rightarrow> Inr (assign_date v d1))
               else Inr d1)"
  have p: "pre_save_event h d =
      (case r2 of
         Inl err \<Rightarrow> (d1, Some err)
       | Inr d2 \<Rightarrow>
           (case (if isNew d2 \<or> isModified d2 ''time''
                  then (case normalizeTime h (time (data d2)) of
                          Inl err \<Rightarrow> Inl err
                        | Inr v \<Rightarrow> Inr (assign_time v d2))
                  else Inr d2) of
              Inl err \<Rightarrow> (d2, Some err)
            | Inr d3 \<Rightarrow> (d3, None)))"
    unfolding pre_save_event_def Let_def r2_def d1_def ..
  show thesis
  proof (cases r2)
    case (Inl err)
    then have "isNew d \<or> isModified d ''date''" "normalizeDate h (date (data d1)) = Inl err"
      unfolding r2_def n1 by (auto split: if_splits sum.splits)
    moreover from Inl p have "pre_save_event h d = (d1, Some err)" by simp
    ultimately show thesis by (rule date_error)
  next
    case (Inr d2)
    then have d2: "(d2 = d1 \<and> \<not> (isNew d \<or> isModified d ''date''))
       \<or> ((isNew d \<or> isModified d ''date'')
           \<and> (\<exists>v. normalizeDate h (date (data d1)) = Inr v \<and> d2 = assign_date v d1))"
      unfolding r2_def n1 by (auto split: if_splits sum.splits)
    then have n2: "isNew d2 = isNew d" "isModified d2 ''time'' = isModified d ''time''"
      using n1 by (auto simp: assign_date_simps)
    define r3 where "r3 = (if isNew d2 \<or> isModified d2 ''time''
                  then (case normalizeTime h (time (data d2)) of
                          Inl err \<Rightarrow> Inl err
                        | Inr v \<Rightarrow> Inr (assign_time v d2))
                  else Inr d2)"
    from Inr p have p3: "pre_save_event h d =
        (case r3 of Inl err \<Rightarrow> (d2, Some err) | Inr d3 \<Rightarrow> (d3, None))"
      by (simp add: r3_def)
    show thesis
    proof (cases r3)
      case (Inl err)
      then have "isNew d \<or> isModified d ''time''" "normalizeTime h (time (data d2)) = Inl err"
        unfolding r3_def n2 by (auto split: if_splits sum.splits)
      moreover from Inl p3 have "pre_save_event h d = (d2, Some err)" by simp
      ultimately show thesis using d2 by (intro time_error[of d2 err])
    next
      case (Inr d3)
      then have "(d3 = d2 \<and> \<not> (isNew d \<or> isModified d ''time''))
         \<or> ((isNew d \<or> isModified d ''time'')
             \<and> (\<exists>v. normalizeTime h (time (data d2)) = Inr v \<and> d3 = assign_time v d2))"
        unfolding r3_def n2 by (auto split: if_splits sum.splits)
      moreover from Inr p3 have "pre_save_event h d = (d3, None)" by simp
      ultimately show thesis using d2 by (intro ok[of d2 d3])
    qed
  qed
qed

lemma hook_slug:
  "slug (data (fst (pre_save_event h d))) =
     (if isNew d \<or> isModified d ''title'' then generateSlug (title (data d)) else slug (data d))"
  by (cases h d rule: pre_save_event_cases)
     (auto simp: assign_simps setters_generateSlug split: if_splits)

lemma hook_title: "title (data (fst (pre_save_event h d))) = title (data d)"
  by (cases h d rule: pre_save_event_cases) (auto simp: assign_simps split: if_splits)



lemma hook_keeps_date:
  "\<not> isNew d \<Longrightarrow> \<not> isModified d ''date'' \<Longrightarrow> date (data (fst (pre_save_event h d))) = date (data d)"
  by (cases h d rule: pre_save_event_cases) (auto simp: assign_simps split: if_splits)

lemma hook_keeps_time:
  "\<not> isNew d \<Longrightarrow> \<not> isModified d ''time'' \<Longrightarrow> time (data (fst (pre_save_event h d))) = time (data d)"
  by (cases h d rule: pre_save_event_cases) (auto simp: assign_simps split: if_splits)

lemma hook_skips_all:
  "\<not> isNew d \<Longrightarrow> \<not> isModified d ''title'' \<Longrightarrow> \<not> isModified d ''date'' \<Longrightarrow> \<not> isModified d ''time''
   \<Longrightarrow> pre_save_event h d = (d, None)"
  by (simp add: pre_save_event_def)

lemma put_paths_keep:
  assumes "''slug'' \<notin> set ps" "''date'' \<notin> set ps" "''time'' \<notin> set ps"
  shows "slug (foldr (put_event_path src) ps e) = slug e
       \<and> date (foldr (put_event_path src) ps e) = date e
       \<and> time (foldr (put_event_path src) ps e) = time e"
  using assms by (induction ps) (auto simp: put_event_path_def)

lemma map_of_replace:
  "map_of (map (\<lambda>(j, x). if j = i then (j, e) else (j, x)) xs) i =
     (case map_of xs i of None \<Rightarrow> None | Some y \<Rightarrow> Some e)"
  by (induction xs) (auto split: option.splits)

text \<open>
  C6. On a save of a document that is not new, each of the three transformations
  runs only when its source path was modified: with \<open>title\<close> unmodified the hook
  leaves \<open>slug\<close> as it is, with \<open>date\<close> unmodified it leaves \<open>date\<close>, with
  \<open>time\<close> unmodified it leaves \<open>time\<close>, and with \<open>title\<close> modified the slug is
  generated again. With none of the three modified the hook changes nothing, and when
  \<open>slug\<close> was not assigned either (an update of, say, \<open>venue\<close> only) a successful
  save leaves the stored slug, date and time exactly as they were.
\<close>

theorem event_hook_runs_only_on_modified:
  assumes "\<not> isNew d"
  shows
   "(\<not> isModified d ''title'' \<longrightarrow> slug (data (fst (pre_save_event h d))) = slug (data d))
    \<and> (\<not> isModified d ''date'' \<longrightarrow> date (data (fst (pre_save_event h d))) = date (data d))
    \<and> (\<not> isModified d ''time'' \<longrightarrow> time (data (fst (pre_save_event h d))) = time (data d))
    \<and> (isModified d ''title'' \<longrightarrow>
          slug (data (fst (pre_save_event h d))) = generateSlug (title (data d)))
    \<and> (\<not> isModified d ''title'' \<and> \<not> isModified d ''date'' \<and> \<not> isModified d ''time''
         \<longrightarrow> pre_save_event h d = (d, None))
    \<and> (\<not> isModified d ''title'' \<and> \<not> isModified d ''date'' \<and> \<not> isModified d ''time''
         \<and> \<not> isModified d ''slug''
         \<longrightarrow> (\<forall>stored d' s'.
               map_of (events s) (oid d) = Some stored
               \<and> save_event h s d = (Inr (), d', s')
               \<longrightarrow> (\<exists>e. map_of (events s') (oid d) = Some e
                        \<and> slug e = slug stored \<and> date e = date stored \<and> time e = time stored)))"
proof (intro conjI impI allI)
  fix stored d' s'
  assume m: "\<not> isModified d ''title'' \<and> \<not> isModified d ''date'' \<and> \<not> isModified d ''time''
         \<and> \<not> isModified d ''slug''"
    and st: "map_of (events s) (oid d) = Some stored \<and> save_event h s d = (Inr (), d', s')"
  from assms m have hk: "pre_save_event h d = (d, None)" by (simp add: hook_skips_all)
  let ?e = "foldr (put_event_path (data d)) (modifiedPaths d) stored"
  from m have keep: "slug ?e = slug stored \<and> date ?e = date stored \<and> time ?e = time stored"
    by (intro put_paths_keep) (simp_all add: isModified_def)
  from st hk assms have
    "s' = s\<lparr>events := map (\<lambda>(j, x). if j = oid d then (j, ?e) else (j, x)) (events s)\<rparr>"
    by (auto simp: save_event_def update_event_def Let_def split: list.splits if_splits)
  with st have "map_of (events s') (oid d) = Some ?e"
    by (simp add: map_of_replace)
  with keep show "\<exists>e. map_of (events s') (oid d) = Some e
        \<and> slug e = slug stored \<and> date e = date stored \<and> time e = time stored"
    by blast
qed (use assms in \<open>simp_all add: hook_slug hook_keeps_date hook_keeps_time hook_skips_all\<close>)

theorem event_hook_runs_only_on_modified_witness:
  "\<not> isNew (assign_venue ''Hall 2'' launch_doc)
   \<and> modifiedPaths (assign_venue ''Hall 2'' launch_doc) = [''venue'']
   \<and> pre_save_event example_host (assign_venue ''Hall 2'' launch_doc) =
        (assign_venue ''Hall 2'' launch_doc, None)
   \<and> map (\<lambda>(j, x). (slug x, date x, time x, venue x)) (events launch_db) =
        [(''launch-day'', ''2025-03-05'', ''09:00'', ''Hall 1'')]
   \<and> map (\<lambda>(j, x). (slug x, date x, time x, venue x))
        (events (snd (snd (save_event example_host launch_db
                             (assign_venue ''Hall 2'' launch_doc))))) =
        [(''launch-day'', ''2025-03-05'', ''09:00'', ''Hall 2'')]"
proof -
  let ?d = "assign_venue ''Hall 2'' launch_doc"
  have n: "\<not> isNew ?d" by code_simp
  have m: "modifiedPaths ?d = [''venue'']" by code_simp
  then have u: "\<not> isModified ?d ''title''" "\<not> isModified ?d ''date''" "\<not> isModified ?d ''time''"
    by (simp_all add: isModified_def)
  from event_hook_runs_only_on_modified[OF n, of example_host launch_db] u
  have "pre_save_event example_host ?d = (?d, None)" by blast
  moreover have "map (\<lambda>(j, x). (slug x, date x, time x, venue x)) (events launch_db) =
        [(''launch-day'', ''2025-03-05'', ''09:00'', ''Hall 1'')]" by code_simp
  moreover have "map (\<lambda>(j, x). (slug x, date x, time x, venue x))
        (events (snd (snd (save_event example_host launch_db ?d)))) =
        [(''launch-day'', ''2025-03-05'', ''09:00'', ''Hall 2'')]" by code_simp
  ultimately show ?thesis using n m by blast
qed


lemma normalizeTime_error:
  "normalizeTime h s = Inl err \<Longrightarrow>
   err = Error ''Invalid time format. Please use HH:MM format (24-hour).''"
  by (auto simp: normalizeTime_def split: if_splits option.splits)

lemma normalizeDate_error:
  "normalizeDate h s = Inl err \<Longrightarrow>
   err = Error ''Invalid date format. Please provide a valid date.''"
  by (auto simp: normalizeDate_def split: option.splits)

lemma normalizeTime_canonical:
  assumes "normalizeTime h s = Inr r"
  shows "test time24HourRegex r"
proof (cases "test time24HourRegex (trim s)")
  case True
  with assms show ?thesis by (simp add: normalizeTime_def)
next
  case False
  with assms obtain t where
    "r = padStart 2 CHR ''0'' (toString_nat (getHours h t)) @ '':''
         @ padStart 2 CHR ''0'' (toString_nat (getMinutes h t))"
    by (auto simp: normalizeTime_def split: option.splits)
  then show ?thesis
    using time24_of_clock[OF getHours_lt getMinutes_lt, of h t h t] by simp
qed

lemma hook_time_error:
  assumes "isNew d \<or> isModified d ''time''"
    and "normalizeTime h (time (data d)) = Inl err"
    and "\<not> (isNew d \<or> isModified d ''date'') \<or> (\<exists>v. normalizeDate h (date (data d)) = Inr v)"
  shows "snd (pre_save_event h d) = Some err"
  using assms
  by (cases h d rule: pre_save_event_cases) (auto simp: assign_simps split: if_splits)

lemma hook_time_canonical:
  assumes "isNew d \<or> isModified d ''time''" and "snd (pre_save_event h d) = None"
  shows "test time24HourRegex (time (data (fst (pre_save_event h d))))"
proof (cases h d rule: pre_save_event_cases)
  case (ok d2 d3)
  with assms(1) obtain v where v: "normalizeTime h (time (data d2)) = Inr v"
    and d3: "d3 = assign_time v d2" by blast
  from v have "test time24HourRegex v" by (rule normalizeTime_canonical)
  with d3 ok(3) show ?thesis by (simp add: assign_simps trim_time24)
qed (use assms in simp_all)

lemma hook_error_kinds:
  "snd (pre_save_event h d) = Some err \<Longrightarrow>
   err = Error ''Invalid date format. Please provide a valid date.''
   \<or> err = Error ''Invalid time format. Please use HH:MM format (24-hour).''"
  by (cases h d rule: pre_save_event_cases)
     (auto dest: normalizeDate_error normalizeTime_error)

lemma save_event_hook_error:
  "validate_event (data d) = [] \<Longrightarrow> snd (pre_save_event h d) = Some err \<Longrightarrow>
   save_event h s d = (Inl err, fst (pre_save_event h d), s)"
  by (cases "pre_save_event h d") (simp add: save_event_def)

lemma save_event_invalid:
  "validate_event (data d) \<noteq> [] \<Longrightarrow>
   save_event h s d = (Inl (ValidationError (validate_event (data d))), d, s)"
  by (cases "validate_event (data d)") (simp_all add: save_event_def)

lemma save_event_error_keeps_store:
  "fst (save_event h s d) = Inl err \<Longrightarrow> snd (snd (save_event h s d)) = s"
  by (auto simp: save_event_def split: list.splits prod.splits option.splits sum.splits)

lemma save_booking_error_keeps_store:
  "fst (save_booking s d) = Inl err \<Longrightarrow> snd (snd (save_booking s d)) = s"
  by (auto simp: save_booking_def split: list.splits option.splits sum.splits)

text \<open>
  The scenario with "9:05am": Node's engine does not read "1970-01-01 9:05am", so
  normalizeTime raises its error and the save of an Event with that time fails, the
  store left as it was.
\<close>

theorem normalizeTime_9_05am_rejected:
  "normalizeTime example_host ''9:05am'' =
     Inl (Error ''Invalid time format. Please use HH:MM format (24-hour).'')
   \<and> save_event example_host empty_db (Event_new 1 (example_event\<lparr>time := ''9:05am''\<rparr>)) =
       (Inl (Error ''Invalid time format. Please use HH:MM format (24-hour).''),
        fst (pre_save_event example_host (Event_new 1 (example_event\<lparr>time := ''9:05am''\<rparr>))),
        empty_db)"
  by code_simp

text \<open>
  C4, as amended. For every time string: one that matches the strict 24-hour pattern
  HH:MM is returned unchanged (the pattern is tried on the trimmed string, which is
  what is returned). Otherwise the string is read as a time of day on 1970-01-01 by the
  engine: when the engine reads it, the result is the local hour and minute, each
  padded to two digits, and every result matches the strict pattern; "2:30 PM" gives
  "14:30". When the engine does not read it, normalizeTime raises the plain error
  "Invalid time format. Please use HH:MM format (24-hour).", the save hook passes that
  error on, and the save fails with it, the store unchanged. After a successful hook on
  a new or time-modified document the time field matches the strict pattern.
\<close>

theorem normalizeTime_amended:
  "(test time24HourRegex s \<longrightarrow> trim s = s \<and> normalizeTime h s = Inr s)
   \<and> (test time24HourRegex (trim s) \<longrightarrow> normalizeTime h s = Inr (trim s))
   \<and> (\<not> test time24HourRegex (trim s) \<longrightarrow>
        (case newDate h (''1970-01-01 '' @ s) of
           Some t \<Rightarrow>
             normalizeTime h s =
               Inr [char_of (48 + getHours h t div 10), char_of (48 + getHours h t mod 10),
                    CHR '':'',
                    char_of (48 + getMinutes h t div 10), char_of (48 + getMinutes h t mod 10)]
             \<and> getHours h t < 24 \<and> getMinutes h t < 60
         | None \<Rightarrow>
             normalizeTime h s =
               Inl (Error ''Invalid time format. Please use HH:MM format (24-hour).'')))
   \<and> (\<forall>r. normalizeTime h s = Inr r \<longrightarrow> test time24HourRegex r)
   \<and> (\<bar>localTZA h\<bar> \<le> 86400000
        \<and> dateParse h ''1970-01-01 2:30 PM'' = LocalTime (14 * 3600000 + 30 * 60000)
        \<longrightarrow> normalizeTime h ''2:30 PM'' = Inr ''14:30'')
   \<and> normalizeTime example_host ''2:30 PM'' = Inr ''14:30''
   \<and> ((isNew d \<or> isModified d ''time'') \<and> snd (pre_save_event h d) = None
        \<longrightarrow> test time24HourRegex (time (data (fst (pre_save_event h d)))))
   \<and> ((isNew d \<or> isModified d ''time'')
        \<and> (\<exists>err. normalizeTime h (time (data d)) = Inl err)
        \<and> (\<not> (isNew d \<or> isModified d ''date'') \<or> (\<exists>v. normalizeDate h (date (data d)) = Inr v))
        \<longrightarrow> snd (pre_save_event h d) =
              Some (Error ''Invalid time format. Please use HH:MM format (24-hour).'')
            \<and> (validate_event (data d) = [] \<longrightarrow>
                 save_event h st d =
                   (Inl (Error ''Invalid time format. Please use HH:MM format (24-hour).''),
                    fst (pre_save_event h d), st)))"
proof -
  have c1: "test time24HourRegex s \<longrightarrow> trim s = s \<and> normalizeTime h s = Inr s"
    by (simp add: trim_time24 normalizeTime_def)
  have c2: "test time24HourRegex (trim s) \<longrightarrow> normalizeTime h s = Inr (trim s)"
    by (simp add: normalizeTime_def)
  have c3: "\<not> test time24HourRegex (trim s) \<longrightarrow>
        (case newDate h (''1970-01-01 '' @ s) of
           Some t \<Rightarrow>
             normalizeTime h s =
               Inr [char_of (48 + getHours h t div 10), char_of (48 + getHours h t mod 10),
                    CHR '':'',
                    char_of (48 + getMinutes h t div 10), char_of (48 + getMinutes h t mod 10)]
             \<and> getHours h t < 24 \<and> getMinutes h t < 60
         | None \<Rightarrow>
             normalizeTime h s =
               Inl (Error ''Invalid time format. Please use HH:MM format (24-hour).''))"
  proof
    assume n: "\<not> test time24HourRegex (trim s)"
    show "case newDate h (''1970-01-01 '' @ s) of
          Some t \<Rightarrow>
            normalizeTime h s =
              Inr [char_of (48 + getHours h t div 10), char_of (48 + getHours h t mod 10),
                   CHR '':'',
                   char_of (48 + getMinutes h t div 10), char_of (48 + getMinutes h t mod 10)]
            \<and> getHours h t < 24 \<and> getMinutes h t < 60
        | None \<Rightarrow>
            normalizeTime h s =
              Inl (Error ''Invalid time format. Please use HH:MM format (24-hour).'')"
    proof (cases "newDate h (''1970-01-01 '' @ s)")
      case None
      with n show ?thesis by (simp add: normalizeTime_def)
    next
      case (Some t)
      have hh: "getHours h t < 100" and mm: "getMinutes h t < 100"
        using getHours_lt[of h t] getMinutes_lt[of h t] by simp_all
      from n Some have "normalizeTime h s =
          Inr (padStart 2 CHR ''0'' (toString_nat (getHours h t)) @ '':''
               @ padStart 2 CHR ''0'' (toString_nat (getMinutes h t)))"
        by (simp add: normalizeTime_def)
      with Some show ?thesis
        by (simp add: two_digits[OF hh] two_digits[OF mm] getHours_lt getMinutes_lt)
    qed
  qed
  have c4: "\<forall>r. normalizeTime h s = Inr r \<longrightarrow> test time24HourRegex r"
    by (blast intro: normalizeTime_canonical)
  have c5: "\<bar>localTZA h\<bar> \<le> 86400000
        \<and> dateParse h ''1970-01-01 2:30 PM'' = LocalTime (14 * 3600000 + 30 * 60000)
        \<longrightarrow> normalizeTime h ''2:30 PM'' = Inr ''14:30''"
  proof
    assume a: "\<bar>localTZA h\<bar> \<le> 86400000
        \<and> dateParse h ''1970-01-01 2:30 PM'' = LocalTime (14 * 3600000 + 30 * 60000)"
    have n: "\<not> test time24HourRegex (trim ''2:30 PM'')" by code_simp
    from a have "\<bar>52200000 - localTZA h\<bar> \<le> 8640000000000000" by linarith
    then have "timeClip (52200000 - localTZA h) = Some (52200000 - localTZA h)"
      by (simp add: timeClip_def)
    with a have nd: "newDate h (''1970-01-01 '' @ ''2:30 PM'') = Some (52200000 - localTZA h)"
      by (simp add: newDate_def)
    have clock: "getHours h (52200000 - localTZA h) = 14"
      "getMinutes h (52200000 - localTZA h) = 30"
      by (simp_all add: getHours_def getMinutes_def)
    have "padStart 2 CHR ''0'' (toString_nat 14) @ '':'' @ padStart 2 CHR ''0'' (toString_nat 30)
          = ''14:30''" by code_simp
    with n nd clock show "normalizeTime h ''2:30 PM'' = Inr ''14:30''"
      by (simp add: normalizeTime_def)
  qed
  have c6: "normalizeTime example_host ''2:30 PM'' = Inr ''14:30''" by code_simp
  have c7: "(isNew d \<or> isModified d ''time'') \<and> snd (pre_save_event h d) = None
        \<longrightarrow> test time24HourRegex (time (data (fst (pre_save_event h d))))"
    by (simp add: hook_time_canonical)
  have c8: "(isNew d \<or> isModified d ''time'')
        \<and> (\<exists>err. normalizeTime h (time (data d)) = Inl err)
        \<and> (\<not> (isNew d \<or> isModified d ''date'') \<or> (\<exists>v. normalizeDate h (date (data d)) = Inr v))
        \<longrightarrow> snd (pre_save_event h d) =
              Some (Error ''Invalid time format. Please use HH:MM format (24-hour).'')
            \<and> (validate_event (data d) = [] \<longrightarrow>
                 save_event h st d =
                   (Inl (Error ''Invalid time format. Please use HH:MM format (24-hour).''),
                    fst (pre_save_event h d), st))"
  proof (intro impI)
    assume a: "(isNew d \<or> isModified d ''time'')
        \<and> (\<exists>err. normalizeTime h (time (data d)) = Inl err)
        \<and> (\<not> (isNew d \<or> isModified d ''date'') \<or> (\<exists>v. normalizeDate h (date (data d)) = Inr v))"
    then obtain err where e: "normalizeTime h (time (data d)) = Inl err" by blast
    then have "err = Error ''Invalid time format. Please use HH:MM format (24-hour).''"
      by (rule normalizeTime_error)
    with a e have k: "snd (pre_save_event h d) =
        Some (Error ''Invalid time format. Please use HH:MM format (24-hour).'')"
      using hook_time_error[of d h err] by blast
    then show "snd (pre_save_event h d) =
              Some (Error ''Invalid time format. Please use HH:MM format (24-hour).'')
            \<and> (validate_event (data d) = [] \<longrightarrow>
                 save_event h st d =
                   (Inl (Error ''Invalid time format. Please use HH:MM format (24-hour).''),
                    fst (pre_save_event h d), st))"
      by (simp add: save_event_hook_error)
  qed
  show ?thesis
    by (intro conjI; fact c1 c2 c3 c4 c5 c6 c7 c8)
qed

theorem normalizeTime_amended_witness:
  "normalizeTime example_host ''23:59'' = Inr ''23:59''
   \<and> normalizeTime example_host ''2:30 PM'' = Inr ''14:30''
   \<and> normalizeTime example_host ''soon'' =
        Inl (Error ''Invalid time format. Please use HH:MM format (24-hour).'')
   \<and> save_event example_host empty_db (Event_new 1 (example_event\<lparr>time := ''soon''\<rparr>)) =
        (Inl (Error ''Invalid time format. Please use HH:MM format (24-hour).''),
         fst (pre_save_event example_host (Event_new 1 (example_event\<lparr>time := ''soon''\<rparr>))),
         empty_db)
   \<and> time (data (fst (pre_save_event example_host
          (Event_new 1 (example_event\<lparr>time := ''2:30 PM''\<rparr>))))) = ''14:30''
   \<and> test time24HourRegex ''14:30''"
proof -
  let ?bad = "Event_new 1 (example_event\<lparr>time := ''soon''\<rparr>)"
  let ?good = "Event_new 1 (example_event\<lparr>time := ''2:30 PM''\<rparr>)"
  have a: "test time24HourRegex ''23:59''" by code_simp
  have b: "\<not> test time24HourRegex (trim ''soon'')" by code_simp
  have c: "newDate example_host (''1970-01-01 '' @ ''soon'') = None" by code_simp
  have tz: "\<bar>localTZA example_host\<bar> \<le> 86400000" by (simp add: example_host_def)
  have p: "dateParse example_host ''1970-01-01 2:30 PM'' = LocalTime (14 * 3600000 + 30 * 60000)"
    by (simp add: example_host_def)
  have n: "isNew ?bad" "isNew ?good" by (simp_all add: Event_new_def)
  have e: "normalizeTime example_host (time (data ?bad)) =
      Inl (Error ''Invalid time format. Please use HH:MM format (24-hour).'')" by code_simp
  have dt: "normalizeDate example_host (date (data ?bad)) = Inr ''2025-03-05''" by code_simp
  have v: "validate_event (data ?bad) = []" by code_simp
  have ok: "snd (pre_save_event example_host ?good) = None" by code_simp
  have t: "time (data (fst (pre_save_event example_host ?good))) = ''14:30''" by code_simp
  note w1 = normalizeTime_amended[where s = "''23:59''" and h = example_host and d = ?bad
      and st = empty_db]
  note w2 = normalizeTime_amended[where s = "''soon''" and h = example_host and d = ?good
      and st = empty_db]
  from w1 a have "normalizeTime example_host ''23:59'' = Inr ''23:59''" by blast
  moreover from w1 tz p have "normalizeTime example_host ''2:30 PM'' = Inr ''14:30''" by blast
  moreover from w2 b c have "normalizeTime example_host ''soon'' =
      Inl (Error ''Invalid time format. Please use HH:MM format (24-hour).'')" by simp
  moreover from w1 n e dt v have "save_event example_host empty_db ?bad =
      (Inl (Error ''Invalid time format. Please use HH:MM format (24-hour).''),
       fst (pre_save_event example_host ?bad), empty_db)" by blast
  moreover from w2 n ok t have "test time24HourRegex ''14:30''" by auto
  ultimately show ?thesis using t by blast
qed



section \<open>Properties of saving\<close>

lemma save_booking_invalid:
  "validate_booking (data b) \<noteq> [] \<Longrightarrow>
   save_booking s b = (Inl (ValidationError (validate_booking (data b))), b, s)"
  by (cases "validate_booking (data b)") (simp_all add: save_booking_def)

lemma save_booking_hook_error:
  "validate_booking (data b) = [] \<Longrightarrow> pre_save_booking s b = Some err \<Longrightarrow>
   save_booking s b = (Inl err, b, s)"
  by (simp add: save_booking_def)

lemma validate_event_title: "title e = [] \<Longrightarrow> (''title'', ''Event title is required'') \<in> set (validate_event e)"
  by (simp add: validate_event_def required_def)

lemma validate_event_mode:
  "mode e \<notin> {''online'', ''offline'', ''hybrid''} \<Longrightarrow> validate_event e \<noteq> []"
  by (simp add: validate_event_def required_def)

text \<open>
  C7. A save that fails leaves the store exactly as it was, whatever the failure: a
  validator of the schema (a missing required field, a mode outside the enumeration,
  an ill-formed email) makes the save fail with the validation error, an error of the
  Event hook (date or time not normalized) or of the Booking hook (the referenced Event
  does not exist) makes it fail with that error, and so does a refused write; in each
  case the store after the save is the store before it.
\<close>

theorem failed_save_leaves_store:
  "(\<forall>err. fst (save_event h s d) = Inl err \<longrightarrow> snd (snd (save_event h s d)) = s)
   \<and> (\<forall>err. fst (save_booking s b) = Inl err \<longrightarrow> snd (snd (save_booking s b)) = s)
   \<and> (validate_event (data d) \<noteq> [] \<longrightarrow>
        save_event h s d = (Inl (ValidationError (validate_event (data d))), d, s))
   \<and> (title (data d) = [] \<longrightarrow> validate_event (data d) \<noteq> [])
   \<and> (mode (data d) \<notin> {''online'', ''offline'', ''hybrid''} \<longrightarrow> validate_event (data d) \<noteq> [])
   \<and> (\<forall>err. validate_event (data d) = [] \<and> snd (pre_save_event h d) = Some err \<longrightarrow>
        save_event h s d = (Inl err, fst (pre_save_event h d), s))
   \<and> (validate_booking (data b) \<noteq> [] \<longrightarrow>
        save_booking s b = (Inl (ValidationError (validate_booking (data b))), b, s))
   \<and> (\<forall>err. validate_booking (data b) = [] \<and> pre_save_booking s b = Some err \<longrightarrow>
        save_booking s b = (Inl err, b, s))"
proof -
  have c1: "\<forall>err. fst (save_event h s d) = Inl err \<longrightarrow> snd (snd (save_event h s d)) = s"
    by (blast intro: save_event_error_keeps_store)
  have c2: "\<forall>err. fst (save_booking s b) = Inl err \<longrightarrow> snd (snd (save_booking s b)) = s"
    by (blast intro: save_booking_error_keeps_store)
  have c3: "validate_event (data d) \<noteq> [] \<longrightarrow>
        save_event h s d = (Inl (ValidationError (validate_event (data d))), d, s)"
    by (simp add: save_event_invalid)
  have c4: "title (data d) = [] \<longrightarrow> validate_event (data d) \<noteq> []"
    using validate_event_title[of "data d"] by auto
  have c5: "mode (data d) \<notin> {''online'', ''offline'', ''hybrid''} \<longrightarrow> validate_event (data d) \<noteq> []"
    by (simp add: validate_event_mode)
  have c6: "\<forall>err. validate_event (data d) = [] \<and> snd (pre_save_event h d) = Some err \<longrightarrow>
        save_event h s d = (Inl err, fst (pre_save_event h d), s)"
    by (simp add: save_event_hook_error)
  have c7: "validate_booking (data b) \<noteq> [] \<longrightarrow>
        save_booking s b = (Inl (ValidationError (validate_booking (data b))), b, s)"
    by (simp add: save_booking_invalid)
  have c8: "\<forall>err. validate_booking (data b) = [] \<and> pre_save_booking s b = Some err \<longrightarrow>
        save_booking s b = (Inl err, b, s)"
    by (simp add: save_booking_hook_error)
  show ?thesis by (intro conjI; fact c1 c2 c3 c4 c5 c6 c7 c8)
qed

theorem failed_save_leaves_store_witness:
  "save_event example_host launch_db (Event_new 2 (example_event\<lparr>date := ''someday''\<rparr>)) =
     (Inl (Error ''Invalid date format. Please provide a valid date.''),
      fst (pre_save_event example_host (Event_new 2 (example_event\<lparr>date := ''someday''\<rparr>))),
      launch_db)
   \<and> slug (data (fst (pre_save_event example_host
         (Event_new 2 (example_event\<lparr>date := ''someday''\<rparr>))))) = ''launch-day''
   \<and> save_event example_host launch_db (Event_new 2 (example_event\<lparr>mode := ''remote''\<rparr>)) =
     (Inl (ValidationError [(''mode'', ''Mode must be either online, offline, or hybrid'')]),
      Event_new 2 (example_event\<lparr>mode := ''remote''\<rparr>), launch_db)
   \<and> save_booking launch_db (Booking_new 7 9 ''user@example.com'') =
     (Inl (Error ''Event with ID 000000000000000000000009 does not exist. Cannot create booking for non-existent event.''),
      Booking_new 7 9 ''user@example.com'', launch_db)
   \<and> events launch_db \<noteq> []"
proof -
  let ?d = "Event_new 2 (example_event\<lparr>date := ''someday''\<rparr>)"
  let ?m = "Event_new 2 (example_event\<lparr>mode := ''remote''\<rparr>)"
  let ?b = "Booking_new 7 9 ''user@example.com''"
  have v: "validate_event (data ?d) = []" by code_simp
  have e: "snd (pre_save_event example_host ?d) =
      Some (Error ''Invalid date format. Please provide a valid date.'')" by code_simp
  have sl: "slug (data (fst (pre_save_event example_host ?d))) = ''launch-day''" by code_simp
  have vm: "validate_event (data ?m) =
      [(''mode'', ''Mode must be either online, offline, or hybrid'')]" by code_simp
  have vb: "validate_booking (data ?b) = []" by code_simp
  have eb: "pre_save_booking launch_db ?b =
      Some (Error ''Event with ID 000000000000000000000009 does not exist. Cannot create booking for non-existent event.'')"
    by code_simp
  have ne: "events launch_db \<noteq> []" by code_simp
  note w1 = failed_save_leaves_store[of example_host launch_db ?d ?b]
  note w2 = failed_save_leaves_store[of example_host launch_db ?m ?b]
  from w1 v e have "save_event example_host launch_db ?d =
     (Inl (Error ''Invalid date format. Please provide a valid date.''),
      fst (pre_save_event example_host ?d), launch_db)" by blast
  moreover from w2 vm have "save_event example_host launch_db ?m =
     (Inl (ValidationError [(''mode'', ''Mode must be either online, offline, or hybrid'')]),
      ?m, launch_db)" by simp
  moreover from w1 vb eb have "save_booking launch_db ?b =
     (Inl (Error ''Event with ID 000000000000000000000009 does not exist. Cannot create booking for non-existent event.''),
      ?b, launch_db)" by blast
  ultimately show ?thesis using sl ne by blast
qed

lemma map_of_append_new:
  "i \<notin> set (map fst xs) \<Longrightarrow> map_of (xs @ [(i, b)]) i = Some b"
  by (induction xs) auto

lemma save_booking_new_ok:
  assumes "isNew d" "validate_booking (data d) = []" "event_exists s (eventId (data d))"
    "oid d \<notin> set (map fst (bookings s))"
  shows "save_booking s d =
     (Inr (), d\<lparr>isNew := False, modifiedPaths := []\<rparr>,
      s\<lparr>bookings := bookings s @ [(oid d, data d)]\<rparr>)"
  using assms by (simp add: save_booking_def pre_save_booking_def insert_booking_def)

text \<open>
  C2. On a Booking save where \<open>eventId\<close> is new or modified the hook asks the store
  whether an Event with that id exists. If none does, the hook raises the error
  "Event with ID <id> does not exist. Cannot create booking for non-existent event.",
  with the id in its 24-digit form, and a save that passed validation fails with that
  error, the store unchanged. If the Event exists the hook passes, and the save of a
  valid new Booking stores the document's fields as they are.
\<close>

theorem booking_reference_checked:
  assumes "isNew d \<or> isModified d ''eventId''"
  shows
   "(\<not> event_exists s (eventId (data d)) \<longrightarrow>
       pre_save_booking s d =
         Some (Error (''Event with ID '' @ objectId_toString (eventId (data d))
                      @ '' does not exist. Cannot create booking for non-existent event.''))
       \<and> (validate_booking (data d) = [] \<longrightarrow>
            save_booking s d =
              (Inl (Error (''Event with ID '' @ objectId_toString (eventId (data d))
                           @ '' does not exist. Cannot create booking for non-existent event.'')),
               d, s)))
    \<and> (event_exists s (eventId (data d)) \<longrightarrow>
         pre_save_booking s d = None
         \<and> (isNew d \<and> validate_booking (data d) = [] \<and> oid d \<notin> set (map fst (bookings s)) \<longrightarrow>
              save_booking s d =
                (Inr (), d\<lparr>isNew := False, modifiedPaths := []\<rparr>,
                 s\<lparr>bookings := bookings s @ [(oid d, data d)]\<rparr>)))
    \<and> event_exists s (eventId (data d)) = (\<exists>e. map_of (events s) (eventId (data d)) = Some e)"
proof -
  have c1: "\<not> event_exists s (eventId (data d)) \<longrightarrow>
       pre_save_booking s d =
         Some (Error (''Event with ID '' @ objectId_toString (eventId (data d))
                      @ '' does not exist. Cannot create booking for non-existent event.''))
       \<and> (validate_booking (data d) = [] \<longrightarrow>
            save_booking s d =
              (Inl (Error (''Event with ID '' @ objectId_toString (eventId (data d))
                           @ '' does not exist. Cannot create booking for non-existent event.'')),
               d, s))"
    using assms by (simp add: pre_save_booking_def save_booking_def)
  have c2: "event_exists s (eventId (data d)) \<longrightarrow>
         pre_save_booking s d = None
         \<and> (isNew d \<and> validate_booking (data d) = [] \<and> oid d \<notin> set (map fst (bookings s)) \<longrightarrow>
              save_booking s d =
                (Inr (), d\<lparr>isNew := False, modifiedPaths := []\<rparr>,
                 s\<lparr>bookings := bookings s @ [(oid d, data d)]\<rparr>))"
    using assms by (simp add: pre_save_booking_def save_booking_new_ok)
  have c3: "event_exists s (eventId (data d)) = (\<exists>e. map_of (events s) (eventId (data d)) = Some e)"
  proof -
    have "(eventId (data d) \<in> fst ` set (events s)) = (map_of (events s) (eventId (data d)) \<noteq> None)"
      by (simp add: map_of_eq_None_iff)
    then show ?thesis by (auto simp: event_exists_def)
  qed
  show ?thesis by (intro conjI; fact c1 c2 c3)
qed

theorem booking_reference_checked_witness:
  "isNew (Booking_new 7 9 ''user@example.com'')
   \<and> save_booking launch_db (Booking_new 7 9 ''user@example.com'') =
     (Inl (Error ''Event with ID 000000000000000000000009 does not exist. Cannot create booking for non-existent event.''),
      Booking_new 7 9 ''user@example.com'', launch_db)
   \<and> save_booking launch_db (Booking_new 7 1 ''user@example.com'') =
     (Inr (), (Booking_new 7 1 ''user@example.com'')\<lparr>isNew := False, modifiedPaths := []\<rparr>,
      launch_db\<lparr>bookings := [(7, \<lparr>eventId = 1, email = ''user@example.com''\<rparr>)]\<rparr>)"
proof -
  let ?bad = "Booking_new 7 9 ''user@example.com''"
  let ?good = "Booking_new 7 1 ''user@example.com''"
  have n: "isNew ?bad" "isNew ?good" by (simp_all add: Booking_new_def)
  have v: "validate_booking (data ?bad) = []" "validate_booking (data ?good) = []" by code_simp+
  have x: "\<not> event_exists launch_db (eventId (data ?bad))"
    "event_exists launch_db (eventId (data ?good))" by code_simp+
  have f: "oid ?good \<notin> set (map fst (bookings launch_db))" by code_simp
  have s: "objectId_toString (eventId (data ?bad)) = ''000000000000000000000009''" by code_simp
  have b: "bookings launch_db = []" by code_simp
  have g: "(oid ?good, data ?good) = (7, \<lparr>eventId = 1, email = ''user@example.com''\<rparr>)" by code_simp
  from booking_reference_checked[of ?bad launch_db] n v x s
  have "save_booking launch_db ?bad =
     (Inl (Error ''Event with ID 000000000000000000000009 does not exist. Cannot create booking for non-existent event.''),
      ?bad, launch_db)" by simp
  moreover from booking_reference_checked[of ?good launch_db] n v x f
  have "save_booking launch_db ?good =
      (Inr (), ?good\<lparr>isNew := False, modifiedPaths := []\<rparr>,
       launch_db\<lparr>bookings := bookings launch_db @ [(oid ?good, data ?good)]\<rparr>)" by blast
  ultimately show ?thesis using n b g by simp
qed

text \<open>
  C9. A new Booking holds the given email trimmed and lowercased (the two setters
  commute, so their order does not matter); "  USER@Example.com " becomes
  "user@example.com". The validator accepts exactly the strings of the shape
  local@domain in which no character is whitespace or "@", the local part is not empty
  and the domain has a "." with at least one character before and after it. A Booking
  whose email is not of that shape is rejected with a validation error on the path
  "email", the store unchanged; every Booking that is stored has an email of that
  shape, and a stored new Booking has the trimmed, lowercased email.
\<close>

theorem booking_email_normalized:
  "email (data (Booking_new i eid mail)) = toLowerCase (trim mail)
   \<and> toLowerCase (trim mail) = trim (toLowerCase mail)
   \<and> email (data (Booking_new i eid ''  USER@Example.com '')) = ''user@example.com''
   \<and> (test emailRegex x \<longleftrightarrow>
        (\<exists>l a b. x = l @ ''@'' @ a @ ''.'' @ b \<and> l \<noteq> [] \<and> a \<noteq> [] \<and> b \<noteq> []
           \<and> list_all (\<lambda>c. \<not> (isWhiteSpace c \<or> c = CHR ''@'')) (l @ a @ b)))
   \<and> (\<not> test emailRegex (toLowerCase (trim mail)) \<longrightarrow>
        (\<exists>msg. save_booking s (Booking_new i eid mail) =
           (Inl (ValidationError [(''email'', msg)]), Booking_new i eid mail, s)))
   \<and> (\<forall>d' s'. save_booking s (Booking_new i eid mail) = (Inr (), d', s') \<longrightarrow>
        test emailRegex (toLowerCase (trim mail))
        \<and> map_of (bookings s') i = Some \<lparr>eventId = eid, email = toLowerCase (trim mail)\<rparr>)
   \<and> (\<forall>d' s'. isNew d \<and> save_booking s d = (Inr (), d', s') \<longrightarrow>
        test emailRegex (email (data d)) \<and> map_of (bookings s') (oid d) = Some (data d))"
proof -
  have c1: "email (data (Booking_new i eid mail)) = toLowerCase (trim mail)"
    by (simp add: Booking_new_def)
  have c2: "toLowerCase (trim mail) = trim (toLowerCase mail)"
    by (simp add: trim_toLowerCase)
  have c3: "email (data (Booking_new i eid ''  USER@Example.com '')) = ''user@example.com''"
    unfolding c1 by code_simp
  have c4: "test emailRegex x \<longleftrightarrow>
        (\<exists>l a b. x = l @ ''@'' @ a @ ''.'' @ b \<and> l \<noteq> [] \<and> a \<noteq> [] \<and> b \<noteq> []
           \<and> list_all (\<lambda>c. \<not> (isWhiteSpace c \<or> c = CHR ''@'')) (l @ a @ b))"
    by (rule email_shape)
  have c5: "\<not> test emailRegex (toLowerCase (trim mail)) \<longrightarrow>
        (\<exists>msg. save_booking s (Booking_new i eid mail) =
           (Inl (ValidationError [(''email'', msg)]), Booking_new i eid mail, s))"
    by (simp add: save_booking_def validate_booking_def Booking_new_def)
  have gen: "test emailRegex (email (data d)) \<and> map_of (bookings s') (oid d) = Some (data d)"
    if "isNew d" "save_booking s d = (Inr (), d', s')" for d d' s'
  proof -
    from that have v: "validate_booking (data d) = []"
      by (auto simp: save_booking_def split: list.splits)
    then have t: "test emailRegex (email (data d))"
      by (auto simp: validate_booking_def split: if_splits)
    from that v have "insert_booking s (oid d) (data d) = Inr s'"
      by (auto simp: save_booking_def split: option.splits sum.splits)
    then have nid: "oid d \<notin> set (map fst (bookings s))"
      and s': "s' = s\<lparr>bookings := bookings s @ [(oid d, data d)]\<rparr>"
      by (auto simp: insert_booking_def split: if_splits)
    from map_of_append_new[OF nid, of "data d"]
    have "map_of (bookings s') (oid d) = Some (data d)" by (simp add: s')
    with t show ?thesis by simp
  qed
  have c7: "\<forall>d' s'. isNew d \<and> save_booking s d = (Inr (), d', s') \<longrightarrow>
        test emailRegex (email (data d)) \<and> map_of (bookings s') (oid d) = Some (data d)"
    using gen by blast
  have c6: "\<forall>d' s'. save_booking s (Booking_new i eid mail) = (Inr (), d', s') \<longrightarrow>
        test emailRegex (toLowerCase (trim mail))
        \<and> map_of (bookings s') i = Some \<lparr>eventId = eid, email = toLowerCase (trim mail)\<rparr>"
    using gen[of "Booking_new i eid mail"] by (simp add: Booking_new_def)
  show ?thesis by (intro conjI; fact c1 c2 c3 c4 c5 c6 c7)
qed

theorem booking_email_normalized_witness:
  "\<not> test emailRegex (toLowerCase (trim ''user@example''))
   \<and> save_booking launch_db (Booking_new 7 1 ''user@example'') =
       (Inl (ValidationError [(''email'', ''Please provide a valid email address'')]),
        Booking_new 7 1 ''user@example'', launch_db)
   \<and> test emailRegex (toLowerCase (trim ''  USER@Example.com ''))
   \<and> map_of (bookings (snd (snd (save_booking launch_db (Booking_new 7 1 ''  USER@Example.com '')))))
        7 = Some \<lparr>eventId = 1, email = ''user@example.com''\<rparr>"
proof -
  have n: "\<not> test emailRegex (toLowerCase (trim ''user@example''))" by code_simp
  with booking_email_normalized[of 7 1 "''user@example''" x launch_db d]
  obtain msg where m: "save_booking launch_db (Booking_new 7 1 ''user@example'') =
      (Inl (ValidationError [(''email'', msg)]), Booking_new 7 1 ''user@example'', launch_db)"
    by blast
  have "fst (save_booking launch_db (Booking_new 7 1 ''user@example'')) =
      Inl (ValidationError [(''email'', ''Please provide a valid email address'')])" by code_simp
  with m have bad: "save_booking launch_db (Booking_new 7 1 ''user@example'') =
       (Inl (ValidationError [(''email'', ''Please provide a valid email address'')]),
        Booking_new 7 1 ''user@example'', launch_db)" by simp
  have ok: "fst (save_booking launch_db (Booking_new 7 1 ''  USER@Example.com '')) = Inr ()"
    by code_simp
  have lt: "toLowerCase (trim ''  USER@Example.com '') = ''user@example.com''" by code_simp
  obtain r d' s' where sv: "save_booking launch_db (Booking_new 7 1 ''  USER@Example.com '') = (r, d', s')"
    by (cases "save_booking launch_db (Booking_new 7 1 ''  USER@Example.com '')") auto
  with ok have sv': "save_booking launch_db (Booking_new 7 1 ''  USER@Example.com '') = (Inr (), d', s')"
    by simp
  with booking_email_normalized[of 7 1 "''  USER@Example.com ''" x launch_db d]
  have "test emailRegex (toLowerCase (trim ''  USER@Example.com ''))
      \<and> map_of (bookings s') 7 = Some \<lparr>eventId = 1, email = toLowerCase (trim ''  USER@Example.com '')\<rparr>"
    by blast
  with sv' lt bad n show ?thesis by simp
qed

text \<open>
  C10. The title "!!!" is not empty and its slug is the empty string. The schema
  declares no validator on the path \<open>slug\<close>: validation does not depend on the slug,
  and a new Event titled "!!!" whose other fields are valid is saved, with the empty
  slug stored.
\<close>

theorem empty_slug_from_nonempty_title:
  "''!!!'' \<noteq> [] \<and> generateSlug ''!!!'' = []
   \<and> validate_event (e\<lparr>slug := v\<rparr>) = validate_event e
   \<and> validate_event (data (Event_new 1 (example_event\<lparr>title := ''!!!''\<rparr>))) = []
   \<and> fst (save_event example_host empty_db (Event_new 1 (example_event\<lparr>title := ''!!!''\<rparr>))) = Inr ()
   \<and> map (\<lambda>(j, x). (title x, slug x))
        (events (snd (snd (save_event example_host empty_db
                             (Event_new 1 (example_event\<lparr>title := ''!!!''\<rparr>)))))) =
        [(''!!!'', [])]"
proof -
  have c1: "''!!!'' \<noteq> []" by simp
  have c2: "generateSlug ''!!!'' = []" by code_simp
  have c3: "validate_event (e\<lparr>slug := v\<rparr>) = validate_event e"
    by (simp add: validate_event_def)
  have c4: "validate_event (data (Event_new 1 (example_event\<lparr>title := ''!!!''\<rparr>))) = []"
    by code_simp
  have c5: "fst (save_event example_host empty_db
      (Event_new 1 (example_event\<lparr>title := ''!!!''\<rparr>))) = Inr ()" by code_simp
  have c6: "map (\<lambda>(j, x). (title x, slug x))
        (events (snd (snd (save_event example_host empty_db
                             (Event_new 1 (example_event\<lparr>title := ''!!!''\<rparr>)))))) =
        [(''!!!'', [])]" by code_simp
  show ?thesis by (intro conjI; fact c1 c2 c3 c4 c5 c6)
qed











end
